theory Spec2Isabelle
  imports Complex_Main
begin

section \<open>Numbers and arrays\<close>

text \<open>
  The program computes with float64 numbers and numpy arrays. The model computes with
  real numbers: rounding is not represented. A value that float64 arithmetic makes
  \<open>nan\<close> or \<open>\<plusminus>inf\<close> has no real counterpart; the model stops there with
  \<open>NonFinite\<close> (numpy itself only warns and goes on with the non-finite value).
  \<open>ValueError\<close> and \<open>IndexError\<close> are the exceptions of the same names.
\<close>

datatype failure = ValueError | IndexError | NonFinite

text \<open>
  The power operator \<open>b ** e\<close> on floats, as numpy evaluates it: \<open>0 ** 0 = 1\<close>,
  \<open>0 ** e = 0\<close> for positive \<open>e\<close> and \<open>inf\<close> for negative \<open>e\<close>; a negative
  base has a power only for an integral exponent and gives \<open>nan\<close> otherwise.
\<close>

definition pow_f :: "real \<Rightarrow> real \<Rightarrow> failure + real" where
  "pow_f b e =
     (if 0 < b then Inr (b powr e)
      else if b = 0 then (if e = 0 then Inr 1 else if 0 < e then Inr 0 else Inl NonFinite)
      else if e = of_int \<lfloor>e\<rfloor>
        then Inr ((if even \<lfloor>e\<rfloor> then 1 else - 1) * (\<bar>b\<bar> powr e))
      else Inl NonFinite)"

text \<open>\<open>np.heaviside(x1, x2)\<close>: 0 below zero, \<open>x2\<close> at zero, 1 above.\<close>

definition heaviside :: "real \<Rightarrow> real \<Rightarrow> real" where
  "heaviside x1 x2 = (if x1 < 0 then 0 else if x1 = 0 then x2 else 1)"

section \<open>Model definition\<close>

text \<open>
  The intervention day \<open>tc\<close> is an integer number of days, or \<open>np.inf\<close> when no
  confinement is made.
\<close>

datatype day = Day int | Never

text \<open>
  \<open>\<Theta>(t, tc) = np.heaviside(t - tc, 1)\<close>; with \<open>tc = np.inf\<close> the difference is
  \<open>-inf\<close> and the value 0.
\<close>

definition \<Theta> :: "int \<Rightarrow> day \<Rightarrow> real" where
  "\<Theta> t tc = (case tc of Never \<Rightarrow> 0 | Day c \<Rightarrow> heaviside (of_int (t - c)) 1)"

definition \<delta> :: "int \<Rightarrow> day \<Rightarrow> real" where
  "\<delta> t tc = (if Day t = tc then 1 else 0)"

definition k :: "int \<Rightarrow> real \<Rightarrow> real \<Rightarrow> real \<Rightarrow> day \<Rightarrow> real" where
  "k t k_avg \<kappa>0 \<sigma> tc = (1 - \<kappa>0 * \<Theta> t tc) * k_avg + \<kappa>0 * (\<sigma> - 1) * \<Theta> t tc"

definition P ::
  "real \<Rightarrow> real \<Rightarrow> int \<Rightarrow> real \<Rightarrow> real \<Rightarrow> real \<Rightarrow> real \<Rightarrow> day \<Rightarrow> failure + real" where
  "P I A t \<beta> k_avg \<kappa>0 \<sigma> tc =
     (case pow_f (1 - \<beta>) (k t k_avg \<kappa>0 \<sigma> tc * (I + A)) of
        Inl err \<Rightarrow> Inl err
      | Inr v \<Rightarrow> Inr (1 - v))"

text \<open>
  A state is the vector \<open>S, E, CH, A, I, H, R, D\<close>; the parameters are the tuple
  \<open>(\<beta>, k_avg, \<eta>, \<alpha>, \<gamma>I, \<mu>I, \<nu>, \<gamma>H, \<mu>H, \<kappa>0, \<sigma>, tc)\<close>. The source unpacks both and
  raises on any other length, which the types exclude.
\<close>

type_synonym state = "real \<times> real \<times> real \<times> real \<times> real \<times> real \<times> real \<times> real"

type_synonym params =
  "real \<times> real \<times> real \<times> real \<times> real \<times> real \<times> real \<times> real \<times> real \<times> real \<times> real \<times> day"

fun SEAIHRD_markov_step :: "state \<Rightarrow> int \<Rightarrow> real \<Rightarrow> real \<Rightarrow> params \<Rightarrow> failure + state" where
  "SEAIHRD_markov_step (S, E, CH, A, I, H, R, D) t S_tc CH_tc
       (\<beta>, k_avg, \<eta>, \<alpha>, \<gamma>I, \<mu>I, \<nu>, \<gamma>H, \<mu>H, \<kappa>0, \<sigma>, tc) =
     (case P I A t \<beta> k_avg \<kappa>0 \<sigma> tc of
        Inl err \<Rightarrow> Inl err
      | Inr p \<Rightarrow>
          Inr (S * (1 - p) * (1 - \<delta> t tc * \<kappa>0 * CH_tc),
               S * p * (1 - \<delta> t tc * \<kappa>0 * CH_tc) + (1 - \<eta>) * E,
               S_tc * \<kappa>0 * CH_tc * \<Theta> t tc,
               \<eta> * E + (1 - \<alpha>) * A,
               \<alpha> * A + (1 - (\<gamma>I + \<mu>I + \<nu>)) * I,
               \<nu> * I + (1 - (\<gamma>H + \<mu>H)) * H,
               \<gamma>I * I + \<gamma>H * H + R,
               \<mu>I * I + \<mu>H * H + D))"

text \<open>Components of a state, and the sum of the eight compartments.\<close>

fun S_of :: "state \<Rightarrow> real" where
  "S_of (S, E, CH, A, I, H, R, D) = S"

fun E_of :: "state \<Rightarrow> real" where
  "E_of (S, E, CH, A, I, H, R, D) = E"

fun CH_of :: "state \<Rightarrow> real" where
  "CH_of (S, E, CH, A, I, H, R, D) = CH"

fun A_of :: "state \<Rightarrow> real" where
  "A_of (S, E, CH, A, I, H, R, D) = A"

fun I_of :: "state \<Rightarrow> real" where
  "I_of (S, E, CH, A, I, H, R, D) = I"

fun H_of :: "state \<Rightarrow> real" where
  "H_of (S, E, CH, A, I, H, R, D) = H"

fun R_of :: "state \<Rightarrow> real" where
  "R_of (S, E, CH, A, I, H, R, D) = R"

fun D_of :: "state \<Rightarrow> real" where
  "D_of (S, E, CH, A, I, H, R, D) = D"

fun compartment_sum :: "state \<Rightarrow> real" where
  "compartment_sum (S, E, CH, A, I, H, R, D) = S + E + CH + A + I + H + R + D"

section \<open>Solver\<close>

text \<open>
  The variables of the loop of \<open>solve\<close>: the rows of \<open>sol\<close> written so far, the current
  state \<open>xt\<close> and the frozen scalars \<open>S_tc\<close>, \<open>CH_tc\<close>. Row \<open>i\<close> of \<open>sol\<close> is written
  in iteration \<open>i\<close>, so the rows written so far are a list that grows at its end.
\<close>

type_synonym loop = "state list \<times> state \<times> real \<times> real"

text \<open>One iteration of the loop, for the day \<open>t\<close>.\<close>

fun solve_body ::
  "(state \<Rightarrow> int \<Rightarrow> real \<Rightarrow> real \<Rightarrow> params \<Rightarrow> failure + state) \<Rightarrow> params \<Rightarrow> nat \<Rightarrow> loop
     \<Rightarrow> failure + loop" where
  "solve_body f (\<beta>, k_avg, \<eta>, \<alpha>, \<gamma>I, \<mu>I, \<nu>, \<gamma>H, \<mu>H, \<kappa>0, \<sigma>, tc) t (sol, xt, S_tc, CH_tc) =
     (case (if Day (int t) = tc
            then (case xt of (S, E, CH, A, I, H, R, D) \<Rightarrow>
                    (case pow_f (S + R) \<sigma> of
                       Inl err \<Rightarrow> Inl err
                     | Inr v \<Rightarrow> Inr (S, v)))
            else Inr (S_tc, CH_tc)) of
        Inl err \<Rightarrow> Inl err
      | Inr (S_tc', CH_tc') \<Rightarrow>
          (case f xt (int t) S_tc' CH_tc' (\<beta>, k_avg, \<eta>, \<alpha>, \<gamma>I, \<mu>I, \<nu>, \<gamma>H, \<mu>H, \<kappa>0, \<sigma>, tc) of
             Inl err \<Rightarrow> Inl err
           | Inr xt' \<Rightarrow> Inr (sol @ [xt], xt', S_tc', CH_tc')))"

fun solve_loop ::
  "(state \<Rightarrow> int \<Rightarrow> real \<Rightarrow> real \<Rightarrow> params \<Rightarrow> failure + state) \<Rightarrow> params \<Rightarrow> nat list \<Rightarrow> loop
     \<Rightarrow> failure + loop" where
  "solve_loop f params [] ls = Inr ls"
| "solve_loop f params (t # ts) ls =
     (case solve_body f params t ls of
        Inl err \<Rightarrow> Inl err
      | Inr ls' \<Rightarrow> solve_loop f params ts ls')"

text \<open>
  The loop state after the first \<open>n\<close> iterations, from the initial values
  \<open>xt = x0\<close>, \<open>S_tc, CH_tc = 0, 0\<close>.
\<close>

definition iterations ::
  "(state \<Rightarrow> int \<Rightarrow> real \<Rightarrow> real \<Rightarrow> params \<Rightarrow> failure + state) \<Rightarrow> state \<Rightarrow> nat \<Rightarrow> params
     \<Rightarrow> failure + loop" where
  "iterations f x0 n params = solve_loop f params [0..<n] ([], x0, 0, 0)"

text \<open>
  \<open>solve(f, x0, t0, n_steps, *params)\<close>. The loop variable takes the values of
  \<open>range(n_steps)\<close>, whatever \<open>t0\<close> is.
\<close>

definition solve ::
  "(state \<Rightarrow> int \<Rightarrow> real \<Rightarrow> real \<Rightarrow> params \<Rightarrow> failure + state) \<Rightarrow> state \<Rightarrow> real \<Rightarrow> nat \<Rightarrow> params
     \<Rightarrow> failure + state list" where
  "solve f x0 t0 n_steps params =
     (case iterations f x0 n_steps params of
        Inl err \<Rightarrow> Inl err
      | Inr (sol, xt, S_tc, CH_tc) \<Rightarrow> Inr sol)"

text \<open>Reading row \<open>i\<close> of an array, for \<open>i \<ge> 0\<close>.\<close>

definition getitem :: "'a list \<Rightarrow> nat \<Rightarrow> failure + 'a" where
  "getitem a i = (if i < length a then Inr (a ! i) else Inl IndexError)"

section \<open>Solution helper functions\<close>

text \<open>The columns \<open>sol[:,j]\<close> of a trajectory.\<close>

definition Suceptibles :: "state list \<Rightarrow> real list" where
  "Suceptibles sol = map S_of sol"

definition Exposed :: "state list \<Rightarrow> real list" where
  "Exposed sol = map E_of sol"

definition Quarantined :: "state list \<Rightarrow> real list" where
  "Quarantined sol = map CH_of sol"

definition Asymptomatic :: "state list \<Rightarrow> real list" where
  "Asymptomatic sol = map A_of sol"

definition Infected :: "state list \<Rightarrow> real list" where
  "Infected sol = map I_of sol"

definition Hospitalized :: "state list \<Rightarrow> real list" where
  "Hospitalized sol = map H_of sol"

definition Recovered :: "state list \<Rightarrow> real list" where
  "Recovered sol = map R_of sol"

definition Deceased :: "state list \<Rightarrow> real list" where
  "Deceased sol = map D_of sol"

text \<open>The sum of two columns of one array, which have the same length.\<close>

definition add_columns :: "real list \<Rightarrow> real list \<Rightarrow> real list" where
  "add_columns a b = map2 (+) a b"

definition TotalCases :: "state list \<Rightarrow> real list" where
  "TotalCases sol =
     add_columns (add_columns (add_columns (Infected sol) (Hospitalized sol)) (Recovered sol))
       (Deceased sol)"

text \<open>
  A numpy result is a scalar or a one-dimensional array. \<open>np.sum(rows, axis=0)\<close> of
  a list of one-dimensional arrays adds them position by position; of the empty list it
  is the scalar 0; rows of different lengths make no array (\<open>ValueError\<close>).
\<close>

datatype ndarray = Scalar real | Vec "real list"

fun np_sum_axis0 :: "real list list \<Rightarrow> failure + ndarray" where
  "np_sum_axis0 [] = Inr (Scalar 0)"
| "np_sum_axis0 (r # rs) =
     (if \<forall>r' \<in> set rs. length r' = length r
      then Inr (Vec (foldl (\<lambda>a b. map2 (+) a b) r rs))
      else Inl ValueError)"

definition CasesAggregation ::
  "state list list \<Rightarrow> (state list \<Rightarrow> real list) \<Rightarrow> failure + ndarray" where
  "CasesAggregation sol_per_state f = np_sum_axis0 (map f sol_per_state)"

section \<open>Mean absolute error\<close>

text \<open>
  \<open>x - y\<close> on one-dimensional arrays: position by position when the lengths agree; an
  array of length 1 is broadcast along the other; any other pair of lengths raises.
\<close>

definition np_subtract :: "real list \<Rightarrow> real list \<Rightarrow> failure + real list" where
  "np_subtract x y =
     (if length x = length y then Inr (map2 (-) x y)
      else if length y = 1 then Inr (map (\<lambda>a. a - hd y) x)
      else if length x = 1 then Inr (map (\<lambda>b. hd x - b) y)
      else Inl ValueError)"

text \<open>\<open>np.mean\<close>; the mean of an empty array is \<open>nan\<close>.\<close>

definition np_mean :: "real list \<Rightarrow> failure + real" where
  "np_mean a = (if a = [] then Inl NonFinite else Inr (sum_list a / real (length a)))"

definition MAE :: "real list \<Rightarrow> real list \<Rightarrow> failure + real" where
  "MAE x y =
     (case np_subtract x (take (length x) y) of
        Inl err \<Rightarrow> Inl err
      | Inr d \<Rightarrow> np_mean (map abs d))"

section \<open>Fitting functions\<close>

text \<open>
  \<open>solve_national\<close> reads the script's global variables. They are parameters here: the
  model constants and the horizon \<open>(\<beta>, k_avg, \<eta>, \<alpha>, \<gamma>I, \<mu>I, \<nu>, \<gamma>H, \<mu>H, \<sigma>, tc, n_days)\<close>,
  and for each state of the country the row \<open>(N, confirmed, deaths, recovered)\<close> of the
  population and case tables at the initial date.
\<close>

type_synonym globals =
  "real \<times> real \<times> real \<times> real \<times> real \<times> real \<times> real \<times> real \<times> real \<times> real \<times> day \<times> nat"

type_synonym region = "real \<times> real \<times> real \<times> real"

text \<open>The initial conditions of one state; a division by \<open>N = 0\<close> is not finite.\<close>

fun initial_conditions :: "real \<Rightarrow> region \<Rightarrow> failure + state" where
  "initial_conditions r (N, confirmed, deaths, recovered) =
     (if N = 0 then Inl NonFinite
      else
        (let p = 1 / 2;
             R0 = recovered / N;
             D0 = deaths / N;
             I0 = (confirmed / N) - R0 - D0;
             E0 = p * r * I0;
             A0 = (1 - p) * r * I0;
             H0 = 0;
             CH0 = 0;
             S0 = 1 - E0 - A0 - I0 - R0 - D0 - H0
         in Inr (S0, E0, CH0, A0, I0, H0, R0, D0)))"

text \<open>\<open>sol * N\<close>: every entry of the array times \<open>N\<close>.\<close>

fun scale_state :: "real \<Rightarrow> state \<Rightarrow> state" where
  "scale_state N (S, E, CH, A, I, H, R, D) =
     (S * N, E * N, CH * N, A * N, I * N, H * N, R * N, D * N)"

text \<open>The body of the loop over the states: the projection of one state.\<close>

fun projection_state_i :: "globals \<Rightarrow> real \<Rightarrow> real \<Rightarrow> region \<Rightarrow> failure + state list" where
  "projection_state_i (\<beta>, k_avg, \<eta>, \<alpha>, \<gamma>I, \<mu>I, \<nu>, \<gamma>H, \<mu>H, \<sigma>, tc, n_days) r \<kappa>0
       (N, confirmed, deaths, recovered) =
     (case initial_conditions r (N, confirmed, deaths, recovered) of
        Inl err \<Rightarrow> Inl err
      | Inr x0 \<Rightarrow>
          (case solve SEAIHRD_markov_step x0 0 n_days
                  (\<beta>, k_avg, \<eta>, \<alpha>, \<gamma>I, \<mu>I, \<nu>, \<gamma>H, \<mu>H, \<kappa>0, \<sigma>, tc) of
             Inl err \<Rightarrow> Inl err
           | Inr sol \<Rightarrow> Inr (map (scale_state N) sol)))"

text \<open>The results of a loop or comprehension, up to the first failure.\<close>

fun collect :: "(failure + 'a) list \<Rightarrow> failure + 'a list" where
  "collect [] = Inr []"
| "collect (Inl err # rs) = Inl err"
| "collect (Inr v # rs) = (case collect rs of Inl err \<Rightarrow> Inl err | Inr vs \<Rightarrow> Inr (v # vs))"

definition solve_national :: "globals \<Rightarrow> region list \<Rightarrow> real \<Rightarrow> real \<Rightarrow> failure + ndarray" where
  "solve_national g regions r \<kappa>0 =
     (case collect (map (projection_state_i g r \<kappa>0) regions) of
        Inl err \<Rightarrow> Inl err
      | Inr projections_\<kappa>0 \<Rightarrow> CasesAggregation projections_\<kappa>0 TotalCases)"

text \<open>
  One entry of the list built by \<open>cross_validation\<close>: \<open>MAE(data, f(r))\<close> with
  \<open>f(r) = solve_national(r, 0.0)\<close>. A scalar projection cannot be sliced.
\<close>

definition candidate_mae :: "globals \<Rightarrow> region list \<Rightarrow> real list \<Rightarrow> real \<Rightarrow> failure + real" where
  "candidate_mae g regions data r =
     (case solve_national g regions r 0 of
        Inl err \<Rightarrow> Inl err
      | Inr (Scalar y) \<Rightarrow> Inl IndexError
      | Inr (Vec y) \<Rightarrow> MAE data y)"

definition cross_validation ::
  "globals \<Rightarrow> region list \<Rightarrow> real list \<Rightarrow> real list \<Rightarrow> failure + real list" where
  "cross_validation g regions data r_range = collect (map (candidate_mae g regions data) r_range)"

text \<open>\<open>min\<close> of a list (\<open>ValueError\<close> on the empty list) and \<open>list.index\<close>.\<close>

fun py_min :: "real list \<Rightarrow> failure + real" where
  "py_min [] = Inl ValueError"
| "py_min (x # xs) = Inr (foldl (\<lambda>m y. if y < m then y else m) x xs)"

fun list_index :: "real list \<Rightarrow> real \<Rightarrow> failure + nat" where
  "list_index [] v = Inl ValueError"
| "list_index (x # xs) v =
     (if x = v then Inr 0
      else (case list_index xs v of Inl err \<Rightarrow> Inl err | Inr i \<Rightarrow> Inr (Suc i)))"

definition r_min :: "real list \<Rightarrow> real list \<Rightarrow> failure + real" where
  "r_min r_range mae_range =
     (case py_min mae_range of
        Inl err \<Rightarrow> Inl err
      | Inr m \<Rightarrow>
          (case list_index mae_range m of
             Inl err \<Rightarrow> Inl err
           | Inr i \<Rightarrow> getitem r_range i))"

text \<open>
  The calibration as the script runs it: \<open>mae_range = cross_validation(data, r_range)\<close>,
  then \<open>r = r_min(r_range, mae_range)\<close>.
\<close>

definition calibrate :: "globals \<Rightarrow> region list \<Rightarrow> real list \<Rightarrow> real list \<Rightarrow> failure + real" where
  "calibrate g regions data r_range =
     (case cross_validation g regions data r_range of
        Inl err \<Rightarrow> Inl err
      | Inr mae_range \<Rightarrow> r_min r_range mae_range)"

section \<open>Valid configurations\<close>

text \<open>
  A state of non-negative fractions, and parameters that make the step a redistribution
  of probability: every rate in [0,1], the outflows of \<open>I\<close> and of \<open>H\<close> at most 1, a
  non-negative number of contacts, \<open>\<kappa>0\<close> in [0,1] and \<open>\<sigma> \<ge> 1\<close>. The program checks none
  of this.
\<close>

definition nonneg :: "state \<Rightarrow> bool" where
  "nonneg x \<longleftrightarrow> 0 \<le> S_of x \<and> 0 \<le> E_of x \<and> 0 \<le> CH_of x \<and> 0 \<le> A_of x \<and> 0 \<le> I_of x
     \<and> 0 \<le> H_of x \<and> 0 \<le> R_of x \<and> 0 \<le> D_of x"

fun valid_params :: "params \<Rightarrow> bool" where
  "valid_params (\<beta>, k_avg, \<eta>, \<alpha>, \<gamma>I, \<mu>I, \<nu>, \<gamma>H, \<mu>H, \<kappa>0, \<sigma>, tc) \<longleftrightarrow>
     0 \<le> \<beta> \<and> \<beta> \<le> 1 \<and> 0 \<le> k_avg \<and> 0 \<le> \<eta> \<and> \<eta> \<le> 1 \<and> 0 \<le> \<alpha> \<and> \<alpha> \<le> 1
     \<and> 0 \<le> \<gamma>I \<and> 0 \<le> \<mu>I \<and> 0 \<le> \<nu> \<and> \<gamma>I + \<mu>I + \<nu> \<le> 1
     \<and> 0 \<le> \<gamma>H \<and> 0 \<le> \<mu>H \<and> \<gamma>H + \<mu>H \<le> 1
     \<and> 0 \<le> \<kappa>0 \<and> \<kappa>0 \<le> 1 \<and> 1 \<le> \<sigma>"

section \<open>Properties of the containment policy\<close>

lemma Theta_cases: "\<Theta> t tc = 0 \<or> \<Theta> t tc = 1"
  by (simp add: \<Theta>_def heaviside_def split: day.split)

lemma k_nonneg:
  assumes "0 \<le> k_avg" "0 \<le> \<kappa>0" "\<kappa>0 \<le> 1" "1 \<le> \<sigma>"
  shows "0 \<le> k t k_avg \<kappa>0 \<sigma> tc"
proof -
  from Theta_cases [of t tc] show ?thesis
  proof
    assume "\<Theta> t tc = 0"
    with assms show ?thesis by (simp add: k_def)
  next
    assume "\<Theta> t tc = 1"
    with assms show ?thesis by (simp add: k_def)
  qed
qed

lemma pow_f_unit:
  assumes "0 \<le> b" "b \<le> 1" "0 \<le> e"
  shows "\<exists>v. pow_f b e = Inr v \<and> 0 \<le> v \<and> v \<le> 1"
proof (cases "b = 0")
  case True
  then show ?thesis using assms by (simp add: pow_f_def)
next
  case False
  with assms have pos: "0 < b" by simp
  have "b powr e \<le> 1" using pos assms by (simp add: powr_le1)
  then show ?thesis using pos by (simp add: pow_f_def)
qed

lemma pow_f_nonneg:
  assumes "0 \<le> b" "0 < e"
  shows "\<exists>v. pow_f b e = Inr v \<and> 0 \<le> v"
  using assms by (cases "b = 0") (auto simp: pow_f_def)

lemma P_unit_interval:
  assumes "0 \<le> \<beta>" "\<beta> \<le> 1" "0 \<le> I + A" "0 \<le> k_avg" "0 \<le> \<kappa>0" "\<kappa>0 \<le> 1" "1 \<le> \<sigma>"
  shows "\<exists>p. P I A t \<beta> k_avg \<kappa>0 \<sigma> tc = Inr p \<and> 0 \<le> p \<and> p \<le> 1"
proof -
  from assms have "0 \<le> k t k_avg \<kappa>0 \<sigma> tc" by (intro k_nonneg)
  with assms have "0 \<le> k t k_avg \<kappa>0 \<sigma> tc * (I + A)" by simp
  moreover from assms have "0 \<le> 1 - \<beta>" "1 - \<beta> \<le> 1" by simp_all
  ultimately have "\<exists>v. pow_f (1 - \<beta>) (k t k_avg \<kappa>0 \<sigma> tc * (I + A)) = Inr v \<and> 0 \<le> v \<and> v \<le> 1"
    by (intro pow_f_unit)
  then show ?thesis by (auto simp: P_def)
qed

text \<open>
  Claim C9. For every day \<open>t\<close>, every \<open>\<beta>\<close> in [0,1], every \<open>I\<close>, \<open>A\<close> with
  \<open>I + A \<ge> 0\<close>, every \<open>k_avg \<ge> 0\<close>, \<open>\<kappa>0\<close> in [0,1], \<open>\<sigma> \<ge> 1\<close> and every \<open>tc\<close>, the
  infection probability \<open>P\<close> is a number of the interval [0,1]: the base \<open>1 - \<beta>\<close> lies
  in [0,1] and the exponent is non-negative, so no clamping is needed.
\<close>

theorem P_saturates:
  assumes "0 \<le> \<beta>" "\<beta> \<le> 1" "0 \<le> I + A" "0 \<le> k_avg" "0 \<le> \<kappa>0" "\<kappa>0 \<le> 1" "1 \<le> \<sigma>"
  shows "\<exists>p. P I A t \<beta> k_avg \<kappa>0 \<sigma> tc = Inr p \<and> 0 \<le> p \<and> p \<le> 1"
proof -
  have "0 \<le> k t k_avg \<kappa>0 \<sigma> tc * (I + A)"
    using k_nonneg [of k_avg \<kappa>0 \<sigma> t tc] assms by simp
  with pow_f_unit [of "1 - \<beta>" "k t k_avg \<kappa>0 \<sigma> tc * (I + A)"] assms
  obtain v where "pow_f (1 - \<beta>) (k t k_avg \<kappa>0 \<sigma> tc * (I + A)) = Inr v" "0 \<le> v" "v \<le> 1"
    by auto
  then show ?thesis by (simp add: P_def)
qed

theorem P_saturates_witness:
  "\<exists>p. P (1/5) (3/10) 4 (1/20) 10 (1/2) (37/10) (Day 3) = Inr p \<and> 0 \<le> p \<and> p \<le> 1"
  using P_saturates [of "1/20" "1/5" "3/10" 10 "1/2" "37/10" 4 "Day 3"] by simp

section \<open>The solver loop\<close>

lemma solve_loop_append:
  "solve_loop f p (ts @ [t]) ls =
     (case solve_loop f p ts ls of Inl err \<Rightarrow> Inl err | Inr ls' \<Rightarrow> solve_body f p t ls')"
  by (induction ts arbitrary: ls) (auto split: sum.splits)

lemma iterations_0: "iterations f x0 0 p = Inr ([], x0, 0, 0)"
  by (simp add: iterations_def)

lemma iterations_Suc:
  "iterations f x0 (Suc n) p =
     (case iterations f x0 n p of Inl err \<Rightarrow> Inl err | Inr ls \<Rightarrow> solve_body f p n ls)"
  by (simp add: iterations_def solve_loop_append)

lemma iterations_invariant:
  assumes run: "iterations f x0 n p = Inr ls"
    and init: "Q 0 ([], x0, 0, 0)"
    and step: "\<And>m ls ls'. m < n \<Longrightarrow> Q m ls \<Longrightarrow> solve_body f p m ls = Inr ls' \<Longrightarrow> Q (Suc m) ls'"
  shows "Q n ls"
  using run step
proof (induction n arbitrary: ls)
  case 0
  then show ?case using init by (simp add: iterations_0)
next
  case (Suc n)
  from Suc.prems(1) obtain ls0 where a: "iterations f x0 n p = Inr ls0"
    and b: "solve_body f p n ls0 = Inr ls"
    by (auto simp: iterations_Suc split: sum.splits)
  have "Q n ls0" using a Suc.prems(2) by (intro Suc.IH) auto
  then show ?case using b Suc.prems(2) [of n ls0 ls] by simp
qed

lemma iterations_defined:
  assumes init: "Q 0 ([], x0, 0, 0)"
    and step: "\<And>m ls. m < n \<Longrightarrow> Q m ls \<Longrightarrow> \<exists>ls'. solve_body f p m ls = Inr ls' \<and> Q (Suc m) ls'"
  shows "\<exists>ls. iterations f x0 n p = Inr ls \<and> Q n ls"
  using step
proof (induction n)
  case 0
  then show ?case using init by (simp add: iterations_0)
next
  case (Suc n)
  have "\<exists>ls. iterations f x0 n p = Inr ls \<and> Q n ls"
    using Suc.prems by (intro Suc.IH) auto
  then obtain ls0 where a: "iterations f x0 n p = Inr ls0" and q: "Q n ls0" by blast
  from Suc.prems [of n ls0] q obtain ls' where "solve_body f p n ls0 = Inr ls'" "Q (Suc n) ls'"
    by auto
  then show ?case using a by (simp add: iterations_Suc)
qed

lemma iterations_defined_run:
  assumes init: "Q 0 ([], x0, 0, 0)"
    and step: "\<And>m ls. m < n \<Longrightarrow> iterations f x0 m p = Inr ls \<Longrightarrow> Q m ls
                 \<Longrightarrow> \<exists>ls'. solve_body f p m ls = Inr ls' \<and> Q (Suc m) ls'"
  shows "\<exists>ls. iterations f x0 n p = Inr ls \<and> Q n ls"
  using step
proof (induction n)
  case 0
  then show ?case using init by (simp add: iterations_0)
next
  case (Suc n)
  have "\<exists>ls. iterations f x0 n p = Inr ls \<and> Q n ls"
    using Suc.prems by (intro Suc.IH) auto
  then obtain ls0 where a: "iterations f x0 n p = Inr ls0" and q: "Q n ls0" by blast
  from Suc.prems [of n ls0] a q obtain ls' where "solve_body f p n ls0 = Inr ls'" "Q (Suc n) ls'"
    by auto
  then show ?case using a by (simp add: iterations_Suc)
qed

lemma state_cases:
  obtains S E CH A I H R D where "(x :: state) = (S, E, CH, A, I, H, R, D)"
  by (cases x) auto

lemma solve_body_rows:
  assumes "solve_body f p m (sol, xt, S_tc, CH_tc) = Inr (sol', xt', S_tc', CH_tc')"
  shows "sol' = sol @ [xt]"
proof -
  obtain \<beta> k_avg \<eta> \<alpha> \<gamma>I \<mu>I \<nu> \<gamma>H \<mu>H \<kappa>0 \<sigma> tc
    where p: "p = (\<beta>, k_avg, \<eta>, \<alpha>, \<gamma>I, \<mu>I, \<nu>, \<gamma>H, \<mu>H, \<kappa>0, \<sigma>, tc)"
    by (cases p) auto
  show ?thesis using assms unfolding p
    by (auto split: sum.splits if_splits prod.splits)
qed

lemma iterations_length:
  assumes "iterations f x0 n p = Inr (sol, xt, S_tc, CH_tc)"
  shows "length sol = n"
proof -
  have "(\<lambda>m (sol, xt, S_tc, CH_tc). length sol = m) n (sol, xt, S_tc, CH_tc)"
  proof (rule iterations_invariant [OF assms])
    show "(\<lambda>m (sol, xt, S_tc, CH_tc). length sol = m) 0 ([], x0, 0, 0)" by simp
  next
    fix m ls ls'
    assume "(\<lambda>m (sol, xt, S_tc, CH_tc). length sol = m) m ls" "solve_body f p m ls = Inr ls'"
    then show "(\<lambda>m (sol, xt, S_tc, CH_tc). length sol = m) (Suc m) ls'"
      by (cases ls; cases ls') (auto dest: solve_body_rows)
  qed
  then show ?thesis by simp
qed

lemma solve_Inr_iff:
  "solve f x0 t0 n p = Inr sol \<longleftrightarrow> (\<exists>xt S_tc CH_tc. iterations f x0 n p = Inr (sol, xt, S_tc, CH_tc))"
  by (auto simp: solve_def split: sum.splits)

lemma iterations_take:
  assumes "iterations f x0 n p = Inr (sol, xt, S_tc, CH_tc)" "m \<le> n"
  shows "\<exists>xt' S_tc' CH_tc'. iterations f x0 m p = Inr (take m sol, xt', S_tc', CH_tc')"
  using assms
proof (induction n arbitrary: sol xt S_tc CH_tc)
  case 0
  then have m: "m = 0" by simp
  have "iterations f x0 0 p = Inr (take 0 sol, x0, 0, 0)" by (simp add: iterations_0)
  then show ?case unfolding m by blast
next
  case (Suc n)
  from Suc.prems(1) obtain sol0 xt0 S0 C0
    where a: "iterations f x0 n p = Inr (sol0, xt0, S0, C0)"
      and b: "solve_body f p n (sol0, xt0, S0, C0) = Inr (sol, xt, S_tc, CH_tc)"
    by (auto simp: iterations_Suc split: sum.splits)
  have rows: "sol = sol0 @ [xt0]" using solve_body_rows [OF b] .
  have len: "length sol0 = n" using iterations_length [OF a] .
  show ?case
  proof (cases "m = Suc n")
    case True
    then have "take m sol = sol" using rows len by simp
    then show ?thesis using Suc.prems(1) True by (metis (full_types))
  next
    case False
    with Suc.prems(2) have mn: "m \<le> n" by simp
    then have "take m sol = take m sol0" using rows len by simp
    then show ?thesis using Suc.IH [OF a mn] by (metis (full_types))
  qed
qed

lemma Theta_at: "\<Theta> t (Day t) = 1"
  by (simp add: \<Theta>_def heaviside_def)

lemma Theta_after: "c < t \<Longrightarrow> \<Theta> t (Day c) = 1"
  by (simp add: \<Theta>_def heaviside_def)

lemma Theta_before: "t < c \<Longrightarrow> \<Theta> t (Day c) = 0"
  by (simp add: \<Theta>_def heaviside_def)

lemma Theta_Never: "\<Theta> t Never = 0"
  by (simp add: \<Theta>_def)

lemma delta_at: "\<delta> t (Day t) = 1"
  by (simp add: \<delta>_def)

lemma delta_other: "tc \<noteq> Day t \<Longrightarrow> \<delta> t tc = 0"
  by (auto simp: \<delta>_def)

lemma step_total:
  assumes "SEAIHRD_markov_step (S, E, CH, A, I, H, R, D) t S_tc CH_tc
             (\<beta>, k_avg, \<eta>, \<alpha>, \<gamma>I, \<mu>I, \<nu>, \<gamma>H, \<mu>H, \<kappa>0, \<sigma>, tc) = Inr y"
  shows "compartment_sum y = S * (1 - \<delta> t tc * \<kappa>0 * CH_tc) + E + A + I + H + R + D
                     + S_tc * \<kappa>0 * CH_tc * \<Theta> t tc"
    and "CH_of y = S_tc * \<kappa>0 * CH_tc * \<Theta> t tc"
  using assms by (auto split: sum.splits simp: algebra_simps)

lemma body_frozen:
  assumes "solve_body f (\<beta>, k_avg, \<eta>, \<alpha>, \<gamma>I, \<mu>I, \<nu>, \<gamma>H, \<mu>H, \<kappa>0, \<sigma>, tc) m (sol, xt, S_tc, CH_tc)
             = Inr (sol', xt', S_tc', CH_tc')"
  shows "sol' = sol @ [xt]"
    and "f xt (int m) S_tc' CH_tc' (\<beta>, k_avg, \<eta>, \<alpha>, \<gamma>I, \<mu>I, \<nu>, \<gamma>H, \<mu>H, \<kappa>0, \<sigma>, tc) = Inr xt'"
    and "tc = Day (int m) \<Longrightarrow> S_tc' = S_of xt \<and> pow_f (S_of xt + R_of xt) \<sigma> = Inr CH_tc'"
    and "tc \<noteq> Day (int m) \<Longrightarrow> S_tc' = S_tc \<and> CH_tc' = CH_tc"
  using assms by (cases xt rule: state_cases; auto split: sum.splits if_splits)+

text \<open>Small runs, computed by unfolding the definitions.\<close>

lemmas run_simps = solve_def iterations_def upt_conv_Cons P_def pow_f_def k_def \<Theta>_def \<delta>_def
  heaviside_def

lemma freeze_run:
  "solve SEAIHRD_markov_step (1, 0, 0, 0, 0, 0, 0, 0) 0 3
     (0, 0, 0, 0, 0, 0, 0, 0, 0, 1/2, 1, Day (int 0))
   = Inr [(1, 0, 0, 0, 0, 0, 0, 0), (1/2, 0, 1/2, 0, 0, 0, 0, 0), (1/2, 0, 1/2, 0, 0, 0, 0, 0)]"
  by (simp add: run_simps)

lemma decay_run:
  "solve SEAIHRD_markov_step (1/2, 0, 0, 0, 1/2, 0, 0, 0) 0 2
     (0, 0, 0, 0, 1/2, 1/4, 0, 0, 0, 0, 1, Never)
   = Inr [(1/2, 0, 0, 0, 1/2, 0, 0, 0), (1/2, 0, 0, 0, 1/8, 0, 1/4, 1/8)]"
  by (simp add: run_simps)

section \<open>The confined compartment\<close>

text \<open>
  Claim C2, amended. For every state, day \<open>t\<close>, frozen scalars and parameters, the \<open>CH\<close>
  output of the transition function is \<open>S_tc \<cdot> \<kappa>0 \<cdot> CH_tc\<close> on every day \<open>t \<ge> tc\<close>
  and 0 on every day \<open>t < tc\<close> (and on every day when there is no intervention day): the
  value is held from day \<open>tc\<close> on, by the step function \<open>\<Theta>\<close>.
\<close>

theorem step_CH:
  assumes "SEAIHRD_markov_step x t S_tc CH_tc (\<beta>, k_avg, \<eta>, \<alpha>, \<gamma>I, \<mu>I, \<nu>, \<gamma>H, \<mu>H, \<kappa>0, \<sigma>, tc) = Inr y"
  shows "CH_of y = (case tc of Day c \<Rightarrow> if c \<le> t then S_tc * \<kappa>0 * CH_tc else 0 | Never \<Rightarrow> 0)"
  using assms
  by (cases x rule: state_cases)
    (auto split: sum.splits day.splits simp: \<Theta>_def heaviside_def)

theorem step_CH_witness:
  "SEAIHRD_markov_step (1, 0, 0, 0, 0, 0, 0, 0) 1 1 1 (0, 0, 0, 0, 0, 0, 0, 0, 0, 1, 1, Day 0)
     = Inr (1, 0, 1, 0, 0, 0, 0, 0)
   \<and> CH_of (1, 0, 1, 0, 0, 0, 0, 0) = (1::real) * 1 * 1"
  using step_CH [of "(1, 0, 0, 0, 0, 0, 0, 0)" 1 1 1 0 0 0 0 0 0 0 0 0 1 1 "Day 0" "(1, 0, 1, 0, 0, 0, 0, 0)"]
  by (simp add: P_def pow_f_def k_def \<Theta>_def \<delta>_def heaviside_def)

text \<open>
  On day 1 with \<open>tc = 0\<close> the output is \<open>S_tc \<cdot> \<kappa>0 \<cdot> CH_tc = 1\<close>, not the 0 of a
  one-shot injection.
\<close>

theorem step_CH_counterexample:
  "map_sum id CH_of
     (SEAIHRD_markov_step (1, 0, 0, 0, 0, 0, 0, 0) 1 1 1 (0, 0, 0, 0, 0, 0, 0, 0, 0, 1, 1, Day 0))
   \<noteq> Inr (if Day 1 = Day 0 then 1 * 1 * 1 else 0)"
  by (simp add: P_def pow_f_def k_def \<Theta>_def \<delta>_def heaviside_def)

section \<open>Conservation of the population\<close>

lemma body_conserves:
  assumes body: "solve_body SEAIHRD_markov_step (\<beta>, k_avg, \<eta>, \<alpha>, \<gamma>I, \<mu>I, \<nu>, \<gamma>H, \<mu>H, \<kappa>0, \<sigma>, tc) m
                   (sol, xt, S_tc, CH_tc) = Inr (sol', xt', S_tc', CH_tc')"
    and tot: "compartment_sum xt = 1"
    and ch: "CH_of xt = S_tc * \<kappa>0 * CH_tc"
    and fr: "(S_tc = 0 \<and> CH_tc = 0) \<or> (\<exists>c. tc = Day c \<and> c < int m)"
  shows "compartment_sum xt' = 1 \<and> CH_of xt' = S_tc' * \<kappa>0 * CH_tc'
           \<and> ((S_tc' = 0 \<and> CH_tc' = 0) \<or> (\<exists>c. tc = Day c \<and> c < int (Suc m)))"
proof -
  obtain S E CH A I H R D where xt: "xt = (S, E, CH, A, I, H, R, D)"
    by (rule state_cases)
  note st = body_frozen(2) [OF body, unfolded xt]
  note tt = step_total [OF st]
  show ?thesis
  proof (cases "tc = Day (int m)")
    case True
    with fr have z: "S_tc = 0" "CH_tc = 0" by auto
    from body_frozen(3) [OF body True] have s: "S_tc' = S" by (simp add: xt)
    from ch z have "CH = 0" by (simp add: xt)
    with tot have "S + E + A + I + H + R + D = 1" by (simp add: xt)
    then show ?thesis using tt True s
      by (simp add: Theta_at delta_at algebra_simps)
  next
    case False
    from body_frozen(4) [OF body False] have s: "S_tc' = S_tc" "CH_tc' = CH_tc" by simp_all
    from fr show ?thesis
    proof
      assume "S_tc = 0 \<and> CH_tc = 0"
      then show ?thesis using tt False s tot ch
        by (simp add: delta_other xt)
    next
      assume "\<exists>c. tc = Day c \<and> c < int m"
      then obtain c where c: "tc = Day c" "c < int m" by blast
      then show ?thesis using tt False s tot ch
        by (simp add: delta_other xt Theta_after)
    qed
  qed
qed

text \<open>
  Whenever the run produces no non-finite value, the rows of a trajectory that starts
  with a total of 1 and with \<open>CH = 0\<close> all sum to 1, for any parameters.
\<close>

lemma solve_conserves:
  assumes run: "solve SEAIHRD_markov_step x0 t0 n (\<beta>, k_avg, \<eta>, \<alpha>, \<gamma>I, \<mu>I, \<nu>, \<gamma>H, \<mu>H, \<kappa>0, \<sigma>, tc) = Inr sol"
    and tot: "compartment_sum x0 = 1"
    and ch: "CH_of x0 = 0"
  shows "length sol = n \<and> (\<forall>x \<in> set sol. compartment_sum x = 1)"
proof -
  let ?p = "(\<beta>, k_avg, \<eta>, \<alpha>, \<gamma>I, \<mu>I, \<nu>, \<gamma>H, \<mu>H, \<kappa>0, \<sigma>, tc)"
  let ?Q = "\<lambda>m (sol, xt, S_tc, CH_tc).
      (\<forall>x \<in> set sol. compartment_sum x = 1) \<and> compartment_sum xt = 1 \<and> CH_of xt = S_tc * \<kappa>0 * CH_tc
      \<and> ((S_tc = 0 \<and> CH_tc = 0) \<or> (\<exists>c. tc = Day c \<and> c < int m))"
  from run obtain xt S_tc CH_tc
    where it: "iterations SEAIHRD_markov_step x0 n ?p = Inr (sol, xt, S_tc, CH_tc)"
    by (auto simp: solve_Inr_iff)
  have "?Q n (sol, xt, S_tc, CH_tc)"
  proof (rule iterations_invariant [OF it])
    show "?Q 0 ([], x0, 0, 0)" using tot ch by simp
  next
    fix m ls ls'
    assume q: "?Q m ls" and b: "solve_body SEAIHRD_markov_step ?p m ls = Inr ls'"
    obtain sol1 xt1 S1 C1 where ls: "ls = (sol1, xt1, S1, C1)" by (cases ls) auto
    obtain sol2 xt2 S2 C2 where ls': "ls' = (sol2, xt2, S2, C2)" by (cases ls') auto
    from q have q1: "\<forall>x \<in> set sol1. compartment_sum x = 1" "compartment_sum xt1 = 1" "CH_of xt1 = S1 * \<kappa>0 * C1"
      "(S1 = 0 \<and> C1 = 0) \<or> (\<exists>c. tc = Day c \<and> c < int m)"
      by (simp_all add: ls)
    have rows: "sol2 = sol1 @ [xt1]" using solve_body_rows [OF b [unfolded ls ls']] .
    from body_conserves [OF b [unfolded ls ls'] q1(2,3,4)] q1(1,2) rows
    show "?Q (Suc m) ls'" by (simp add: ls')
  qed
  then show ?thesis using iterations_length [OF it] by simp
qed

section \<open>Runs of valid configurations\<close>

text \<open>
  In exact arithmetic a valid configuration that starts from non-negative fractions of
  total at most 1 stays one: every step is defined, the state stays non-negative with
  total at most 1, and the scalar captured at day \<open>tc\<close> satisfies \<open>\<kappa>0 \<cdot> CH_tc \<le> 1\<close>.
\<close>

lemma step_valid:
  assumes v: "valid_params (\<beta>, k_avg, \<eta>, \<alpha>, \<gamma>I, \<mu>I, \<nu>, \<gamma>H, \<mu>H, \<kappa>0, \<sigma>, tc)"
    and nn: "nonneg (S, E, CH, A, I, H, R, D)"
    and fr: "0 \<le> S_tc" "0 \<le> CH_tc" "\<delta> t tc * \<kappa>0 * CH_tc \<le> 1"
  shows "\<exists>y. SEAIHRD_markov_step (S, E, CH, A, I, H, R, D) t S_tc CH_tc
                (\<beta>, k_avg, \<eta>, \<alpha>, \<gamma>I, \<mu>I, \<nu>, \<gamma>H, \<mu>H, \<kappa>0, \<sigma>, tc) = Inr y
             \<and> nonneg y \<and> R \<le> R_of y \<and> D \<le> D_of y"
proof -
  from v nn have "\<exists>p. P I A t \<beta> k_avg \<kappa>0 \<sigma> tc = Inr p \<and> 0 \<le> p \<and> p \<le> 1"
    by (intro P_unit_interval) (simp_all add: nonneg_def)
  then obtain p where p: "P I A t \<beta> k_avg \<kappa>0 \<sigma> tc = Inr p" "0 \<le> p" "p \<le> 1" by blast
  let ?q = "1 - \<delta> t tc * \<kappa>0 * CH_tc"
  have q: "0 \<le> ?q" using fr by simp
  have th: "0 \<le> \<Theta> t tc" using Theta_cases [of t tc] by auto
  from nn have c: "0 \<le> S" "0 \<le> E" "0 \<le> A" "0 \<le> I" "0 \<le> H" "0 \<le> R" "0 \<le> D"
    by (simp_all add: nonneg_def)
  from v have r: "0 \<le> 1 - \<eta>" "0 \<le> 1 - \<alpha>" "0 \<le> 1 - (\<gamma>I + \<mu>I + \<nu>)" "0 \<le> 1 - (\<gamma>H + \<mu>H)"
    "0 \<le> \<eta>" "0 \<le> \<alpha>" "0 \<le> \<gamma>I" "0 \<le> \<mu>I" "0 \<le> \<nu>" "0 \<le> \<gamma>H" "0 \<le> \<mu>H" "0 \<le> \<kappa>0"
    by simp_all
  have s: "0 \<le> S * (1 - p) * ?q" using c p q by simp
  have e: "0 \<le> S * p * ?q + (1 - \<eta>) * E" using c p q r by simp
  have ch: "0 \<le> S_tc * \<kappa>0 * CH_tc * \<Theta> t tc" using fr r th by simp
  have a: "0 \<le> \<eta> * E + (1 - \<alpha>) * A" using c r by simp
  have i: "0 \<le> \<alpha> * A + (1 - (\<gamma>I + \<mu>I + \<nu>)) * I" using c r by simp
  have h: "0 \<le> \<nu> * I + (1 - (\<gamma>H + \<mu>H)) * H" using c r by simp
  have rr: "R \<le> \<gamma>I * I + \<gamma>H * H + R" using c r by simp
  have dd: "D \<le> \<mu>I * I + \<mu>H * H + D" using c r by simp
  show ?thesis using p(1) s e ch a i h rr dd c(6,7)
    by (simp add: nonneg_def)
qed

lemma body_valid:
  assumes v: "valid_params (\<beta>, k_avg, \<eta>, \<alpha>, \<gamma>I, \<mu>I, \<nu>, \<gamma>H, \<mu>H, \<kappa>0, \<sigma>, tc)"
    and nn: "nonneg xt"
    and tot: "compartment_sum xt \<le> 1"
    and fr: "0 \<le> S_tc" "0 \<le> CH_tc"
    and ch: "S_tc * \<kappa>0 * CH_tc \<le> CH_of xt"
    and z: "(S_tc = 0 \<and> CH_tc = 0) \<or> (\<exists>c. tc = Day c \<and> c < int m)"
  shows "\<exists>xt' S_tc' CH_tc'.
           solve_body SEAIHRD_markov_step (\<beta>, k_avg, \<eta>, \<alpha>, \<gamma>I, \<mu>I, \<nu>, \<gamma>H, \<mu>H, \<kappa>0, \<sigma>, tc) m
             (sol, xt, S_tc, CH_tc) = Inr (sol @ [xt], xt', S_tc', CH_tc')
           \<and> nonneg xt' \<and> compartment_sum xt' \<le> 1 \<and> 0 \<le> S_tc' \<and> 0 \<le> CH_tc'
           \<and> S_tc' * \<kappa>0 * CH_tc' \<le> CH_of xt'
           \<and> ((S_tc' = 0 \<and> CH_tc' = 0) \<or> (\<exists>c. tc = Day c \<and> c < int (Suc m)))
           \<and> R_of xt \<le> R_of xt' \<and> D_of xt \<le> D_of xt'"
proof -
  obtain S E CH A I H R D where xt: "xt = (S, E, CH, A, I, H, R, D)"
    by (rule state_cases)
  from nn have c: "0 \<le> S" "0 \<le> E" "0 \<le> CH" "0 \<le> A" "0 \<le> I" "0 \<le> H" "0 \<le> R" "0 \<le> D"
    by (simp_all add: nonneg_def xt)
  from v have k0: "0 \<le> \<kappa>0" "\<kappa>0 \<le> 1" "1 \<le> \<sigma>" by simp_all
  let ?p = "(\<beta>, k_avg, \<eta>, \<alpha>, \<gamma>I, \<mu>I, \<nu>, \<gamma>H, \<mu>H, \<kappa>0, \<sigma>, tc)"
  show ?thesis
  proof (cases "tc = Day (int m)")
    case True
    have "0 \<le> S + R" "S + R \<le> 1" using c tot by (simp_all add: xt)
    with pow_f_unit [of "S + R" \<sigma>] k0 obtain w
      where w: "pow_f (S + R) \<sigma> = Inr w" "0 \<le> w" "w \<le> 1" by auto
    have kw: "\<kappa>0 * w \<le> 1" using k0 w by (simp add: mult_le_one)
    then have "\<delta> (int m) tc * \<kappa>0 * w \<le> 1" by (simp add: True delta_at)
    from step_valid [OF v nn [unfolded xt] c(1) w(2) this]
    obtain y where y: "SEAIHRD_markov_step (S, E, CH, A, I, H, R, D) (int m) S w ?p = Inr y"
      "nonneg y" "R \<le> R_of y" "D \<le> D_of y" by blast
    note tt = step_total [OF y(1)]
    have "compartment_sum y = compartment_sum xt - CH" using tt by (simp add: xt True Theta_at delta_at algebra_simps)
    then have t1: "compartment_sum y \<le> 1" using tot c by simp
    have t2: "S * \<kappa>0 * w \<le> CH_of y" using tt by (simp add: True Theta_at)
    have "solve_body SEAIHRD_markov_step ?p m (sol, xt, S_tc, CH_tc) = Inr (sol @ [xt], y, S, w)"
      using w(1) y(1) True unfolding xt by simp
    then show ?thesis using y t1 t2 c w True by (auto simp: xt)
  next
    case False
    then have d: "\<delta> (int m) tc = 0" by (simp add: delta_other)
    then have "\<delta> (int m) tc * \<kappa>0 * CH_tc \<le> 1" by simp
    from step_valid [OF v nn [unfolded xt] fr this]
    obtain y where y: "SEAIHRD_markov_step (S, E, CH, A, I, H, R, D) (int m) S_tc CH_tc ?p = Inr y"
      "nonneg y" "R \<le> R_of y" "D \<le> D_of y" by blast
    note tt = step_total [OF y(1)]
    have th: "S_tc * \<kappa>0 * CH_tc * \<Theta> (int m) tc \<le> CH \<and> S_tc * \<kappa>0 * CH_tc \<le> CH_of y"
      using z
    proof
      assume "S_tc = 0 \<and> CH_tc = 0"
      then show ?thesis using c tt by simp
    next
      assume "\<exists>c. tc = Day c \<and> c < int m"
      then obtain c where "tc = Day c" "c < int m" by blast
      then have "\<Theta> (int m) tc = 1" by (simp add: Theta_after)
      then show ?thesis using ch tt by (simp add: xt)
    qed
    have "compartment_sum y = compartment_sum xt - CH + S_tc * \<kappa>0 * CH_tc * \<Theta> (int m) tc"
      using tt by (simp add: xt d)
    then have t1: "compartment_sum y \<le> 1" using tot th by simp
    have "solve_body SEAIHRD_markov_step ?p m (sol, xt, S_tc, CH_tc) = Inr (sol @ [xt], y, S_tc, CH_tc)"
      using y(1) False unfolding xt by auto
    moreover have "(S_tc = 0 \<and> CH_tc = 0) \<or> (\<exists>c. tc = Day c \<and> c < int (Suc m))"
      using z by auto
    ultimately show ?thesis using y t1 th fr by (auto simp: xt)
  qed
qed

lemma iterations_valid:
  assumes v: "valid_params (\<beta>, k_avg, \<eta>, \<alpha>, \<gamma>I, \<mu>I, \<nu>, \<gamma>H, \<mu>H, \<kappa>0, \<sigma>, tc)"
    and nn: "nonneg x0" and tot: "compartment_sum x0 \<le> 1"
  shows "\<exists>sol xt S_tc CH_tc.
           iterations SEAIHRD_markov_step x0 n (\<beta>, k_avg, \<eta>, \<alpha>, \<gamma>I, \<mu>I, \<nu>, \<gamma>H, \<mu>H, \<kappa>0, \<sigma>, tc)
             = Inr (sol, xt, S_tc, CH_tc)
           \<and> length sol = n
           \<and> (\<forall>i. Suc i < n \<longrightarrow> R_of (sol ! i) \<le> R_of (sol ! Suc i) \<and> D_of (sol ! i) \<le> D_of (sol ! Suc i))
           \<and> nonneg xt \<and> compartment_sum xt \<le> 1"
proof -
  let ?p = "(\<beta>, k_avg, \<eta>, \<alpha>, \<gamma>I, \<mu>I, \<nu>, \<gamma>H, \<mu>H, \<kappa>0, \<sigma>, tc)"
  let ?Q = "\<lambda>m (sol, xt, S_tc, CH_tc).
      nonneg xt \<and> compartment_sum xt \<le> 1 \<and> 0 \<le> S_tc \<and> 0 \<le> CH_tc \<and> S_tc * \<kappa>0 * CH_tc \<le> CH_of xt
      \<and> ((S_tc = 0 \<and> CH_tc = 0) \<or> (\<exists>c. tc = Day c \<and> c < int m))
      \<and> length sol = m
      \<and> (\<forall>i. Suc i < m \<longrightarrow> R_of (sol ! i) \<le> R_of (sol ! Suc i) \<and> D_of (sol ! i) \<le> D_of (sol ! Suc i))
      \<and> (0 < m \<longrightarrow> R_of (sol ! (m - 1)) \<le> R_of xt \<and> D_of (sol ! (m - 1)) \<le> D_of xt)"
  have init: "?Q 0 ([], x0, 0, 0)"
    using nn tot by (simp add: nonneg_def)
  have step: "\<exists>ls'. solve_body SEAIHRD_markov_step ?p m ls = Inr ls' \<and> ?Q (Suc m) ls'"
    if "?Q m ls" for m ls
  proof -
    obtain sol xt S_tc CH_tc where ls: "ls = (sol, xt, S_tc, CH_tc)" by (cases ls) auto
    from that have q: "nonneg xt" "compartment_sum xt \<le> 1" "0 \<le> S_tc" "0 \<le> CH_tc"
      "S_tc * \<kappa>0 * CH_tc \<le> CH_of xt" "(S_tc = 0 \<and> CH_tc = 0) \<or> (\<exists>c. tc = Day c \<and> c < int m)"
      and len: "length sol = m"
      and mono: "\<forall>i. Suc i < m \<longrightarrow> R_of (sol ! i) \<le> R_of (sol ! Suc i) \<and> D_of (sol ! i) \<le> D_of (sol ! Suc i)"
      and lst: "0 < m \<longrightarrow> R_of (sol ! (m - 1)) \<le> R_of xt \<and> D_of (sol ! (m - 1)) \<le> D_of xt"
      by (simp_all add: ls)
    from body_valid [OF v q, of sol] obtain xt' S_tc' CH_tc'
      where b: "solve_body SEAIHRD_markov_step ?p m (sol, xt, S_tc, CH_tc) = Inr (sol @ [xt], xt', S_tc', CH_tc')"
        and q': "nonneg xt'" "compartment_sum xt' \<le> 1" "0 \<le> S_tc'" "0 \<le> CH_tc'"
          "S_tc' * \<kappa>0 * CH_tc' \<le> CH_of xt'"
          "(S_tc' = 0 \<and> CH_tc' = 0) \<or> (\<exists>c. tc = Day c \<and> c < int (Suc m))"
        and rd: "R_of xt \<le> R_of xt'" "D_of xt \<le> D_of xt'"
      by blast
    have m': "R_of ((sol @ [xt]) ! i) \<le> R_of ((sol @ [xt]) ! Suc i)
        \<and> D_of ((sol @ [xt]) ! i) \<le> D_of ((sol @ [xt]) ! Suc i)" if "Suc i < Suc m" for i
    proof (cases "Suc i < m")
      case True
      then show ?thesis using mono len by (simp add: nth_append)
    next
      case False
      with that have "Suc i = m" by simp
      then show ?thesis using lst len by (auto simp: nth_append)
    qed
    have "?Q (Suc m) (sol @ [xt], xt', S_tc', CH_tc')"
      using q' rd len m' by (simp add: nth_append)
    then show ?thesis using b ls by blast
  qed
  from iterations_defined [of ?Q x0 n SEAIHRD_markov_step ?p, OF init step]
  obtain ls where "iterations SEAIHRD_markov_step x0 n ?p = Inr ls" "?Q n ls" by blast
  then show ?thesis by (cases ls) auto
qed

lemma capture_bounded:
  assumes v: "valid_params (\<beta>, k_avg, \<eta>, \<alpha>, \<gamma>I, \<mu>I, \<nu>, \<gamma>H, \<mu>H, \<kappa>0, \<sigma>, Day (int c))"
    and nn: "nonneg x0" and tot: "compartment_sum x0 \<le> 1"
    and it: "iterations SEAIHRD_markov_step x0 (Suc c)
               (\<beta>, k_avg, \<eta>, \<alpha>, \<gamma>I, \<mu>I, \<nu>, \<gamma>H, \<mu>H, \<kappa>0, \<sigma>, Day (int c)) = Inr (sol, xt, S_tc, CH_tc)"
  shows "\<kappa>0 * CH_tc \<le> 1"
proof -
  let ?p = "(\<beta>, k_avg, \<eta>, \<alpha>, \<gamma>I, \<mu>I, \<nu>, \<gamma>H, \<mu>H, \<kappa>0, \<sigma>, Day (int c))"
  from iterations_valid [OF v nn tot, of c] obtain sol0 xt0 S0 C0
    where it0: "iterations SEAIHRD_markov_step x0 c ?p = Inr (sol0, xt0, S0, C0)"
      and q: "nonneg xt0" "compartment_sum xt0 \<le> 1"
    by blast
  have b: "solve_body SEAIHRD_markov_step ?p c (sol0, xt0, S0, C0) = Inr (sol, xt, S_tc, CH_tc)"
    using it it0 by (simp add: iterations_Suc)
  from body_frozen(3) [OF b] have pw: "pow_f (S_of xt0 + R_of xt0) \<sigma> = Inr CH_tc" by simp
  obtain S E CH A I H R D where xt0: "xt0 = (S, E, CH, A, I, H, R, D)" by (rule state_cases)
  from q have "0 \<le> S + R" "S + R \<le> 1" by (simp_all add: xt0 nonneg_def)
  moreover from v have k0: "0 \<le> \<kappa>0" "\<kappa>0 \<le> 1" "0 \<le> \<sigma>" by simp_all
  ultimately obtain w where "pow_f (S + R) \<sigma> = Inr w" "0 \<le> w" "w \<le> 1"
    using pow_f_unit [of "S + R" \<sigma>] by auto
  with pw have "0 \<le> CH_tc" "CH_tc \<le> 1" by (simp_all add: xt0)
  with k0 show ?thesis by (simp add: mult_le_one)
qed

text \<open>
  The bound \<open>\<kappa>0 \<cdot> CH_tc \<le> 1\<close> is what keeps \<open>S\<close> and \<open>E\<close> non-negative on the day of the
  capture. The program computes \<open>S + R\<close> in floating point, where rounding can put the
  sum above 1; so the results below take the bound on the captured scalar as their
  condition, and need no bound on the total. A run is then defined on every day, stays
  non-negative, and \<open>R\<close> and \<open>D\<close> never fall.
\<close>

lemma step_defined:
  assumes v: "valid_params (\<beta>, k_avg, \<eta>, \<alpha>, \<gamma>I, \<mu>I, \<nu>, \<gamma>H, \<mu>H, \<kappa>0, \<sigma>, tc)"
    and nn: "nonneg (S, E, CH, A, I, H, R, D)"
  shows "\<exists>y. SEAIHRD_markov_step (S, E, CH, A, I, H, R, D) t S_tc CH_tc
                (\<beta>, k_avg, \<eta>, \<alpha>, \<gamma>I, \<mu>I, \<nu>, \<gamma>H, \<mu>H, \<kappa>0, \<sigma>, tc) = Inr y
             \<and> R \<le> R_of y \<and> D \<le> D_of y
             \<and> (0 \<le> S_tc \<longrightarrow> 0 \<le> CH_tc \<longrightarrow> \<delta> t tc * \<kappa>0 * CH_tc \<le> 1 \<longrightarrow> nonneg y)"
proof -
  from v nn have "\<exists>p. P I A t \<beta> k_avg \<kappa>0 \<sigma> tc = Inr p \<and> 0 \<le> p \<and> p \<le> 1"
    by (intro P_unit_interval) (simp_all add: nonneg_def)
  then obtain p where p: "P I A t \<beta> k_avg \<kappa>0 \<sigma> tc = Inr p" by blast
  then obtain y where y: "SEAIHRD_markov_step (S, E, CH, A, I, H, R, D) t S_tc CH_tc
                (\<beta>, k_avg, \<eta>, \<alpha>, \<gamma>I, \<mu>I, \<nu>, \<gamma>H, \<mu>H, \<kappa>0, \<sigma>, tc) = Inr y"
    and ry: "R_of y = \<gamma>I * I + \<gamma>H * H + R" and dy: "D_of y = \<mu>I * I + \<mu>H * H + D"
    by simp
  from nn have c: "0 \<le> I" "0 \<le> H" by (simp_all add: nonneg_def)
  from v have r: "0 \<le> \<gamma>I" "0 \<le> \<mu>I" "0 \<le> \<gamma>H" "0 \<le> \<mu>H" by simp_all
  have "R \<le> R_of y" "D \<le> D_of y" using c r ry dy by simp_all
  moreover have "nonneg y" if "0 \<le> S_tc" "0 \<le> CH_tc" "\<delta> t tc * \<kappa>0 * CH_tc \<le> 1"
    using step_valid [OF v nn that] y by auto
  ultimately show ?thesis using y by blast
qed

lemma body_admissible:
  assumes v: "valid_params (\<beta>, k_avg, \<eta>, \<alpha>, \<gamma>I, \<mu>I, \<nu>, \<gamma>H, \<mu>H, \<kappa>0, \<sigma>, tc)"
    and nn: "nonneg xt"
    and fr: "0 \<le> S_tc" "0 \<le> CH_tc"
  shows "\<exists>xt' S_tc' CH_tc'.
           solve_body SEAIHRD_markov_step (\<beta>, k_avg, \<eta>, \<alpha>, \<gamma>I, \<mu>I, \<nu>, \<gamma>H, \<mu>H, \<kappa>0, \<sigma>, tc) m
             (sol, xt, S_tc, CH_tc) = Inr (sol @ [xt], xt', S_tc', CH_tc')
           \<and> 0 \<le> S_tc' \<and> 0 \<le> CH_tc'
           \<and> R_of xt \<le> R_of xt' \<and> D_of xt \<le> D_of xt'
           \<and> ((tc = Day (int m) \<longrightarrow> \<kappa>0 * CH_tc' \<le> 1) \<longrightarrow> nonneg xt')"
proof -
  obtain S E CH A I H R D where xt: "xt = (S, E, CH, A, I, H, R, D)"
    by (rule state_cases)
  from nn have c: "0 \<le> S" "0 \<le> R" by (simp_all add: nonneg_def xt)
  from v have sg: "0 < \<sigma>" by simp
  let ?p = "(\<beta>, k_avg, \<eta>, \<alpha>, \<gamma>I, \<mu>I, \<nu>, \<gamma>H, \<mu>H, \<kappa>0, \<sigma>, tc)"
  show ?thesis
  proof (cases "tc = Day (int m)")
    case True
    from pow_f_nonneg [of "S + R" \<sigma>] c sg obtain w
      where w: "pow_f (S + R) \<sigma> = Inr w" "0 \<le> w" by auto
    from step_defined [OF v nn [unfolded xt], of "int m" S w]
    obtain y where y: "SEAIHRD_markov_step (S, E, CH, A, I, H, R, D) (int m) S w ?p = Inr y"
      "R \<le> R_of y" "D \<le> D_of y"
      "0 \<le> S \<longrightarrow> 0 \<le> w \<longrightarrow> \<delta> (int m) tc * \<kappa>0 * w \<le> 1 \<longrightarrow> nonneg y" by blast
    have "solve_body SEAIHRD_markov_step ?p m (sol, xt, S_tc, CH_tc) = Inr (sol @ [xt], y, S, w)"
      using w(1) y(1) True unfolding xt by simp
    moreover have "(tc = Day (int m) \<longrightarrow> \<kappa>0 * w \<le> 1) \<longrightarrow> nonneg y"
      using y(4) c w(2) by (simp add: True delta_at)
    moreover have "R_of xt \<le> R_of y" "D_of xt \<le> D_of y" using y(2,3) by (simp_all add: xt)
    ultimately show ?thesis using c(1) w(2)
      by (intro exI [of _ y] exI [of _ S] exI [of _ w]) simp
  next
    case False
    then have d: "\<delta> (int m) tc = 0" by (simp add: delta_other)
    from step_defined [OF v nn [unfolded xt], of "int m" S_tc CH_tc]
    obtain y where y: "SEAIHRD_markov_step (S, E, CH, A, I, H, R, D) (int m) S_tc CH_tc ?p = Inr y"
      "R \<le> R_of y" "D \<le> D_of y"
      "0 \<le> S_tc \<longrightarrow> 0 \<le> CH_tc \<longrightarrow> \<delta> (int m) tc * \<kappa>0 * CH_tc \<le> 1 \<longrightarrow> nonneg y" by blast
    have "solve_body SEAIHRD_markov_step ?p m (sol, xt, S_tc, CH_tc) = Inr (sol @ [xt], y, S_tc, CH_tc)"
      using y(1) False unfolding xt by auto
    moreover have "nonneg y" using y(4) fr d by simp
    moreover have "R_of xt \<le> R_of y" "D_of xt \<le> D_of y" using y(2,3) by (simp_all add: xt)
    ultimately show ?thesis using fr
      by (intro exI [of _ y] exI [of _ S_tc] exI [of _ CH_tc]) simp
  qed
qed

lemma iterations_admissible:
  assumes v: "valid_params (\<beta>, k_avg, \<eta>, \<alpha>, \<gamma>I, \<mu>I, \<nu>, \<gamma>H, \<mu>H, \<kappa>0, \<sigma>, tc)"
    and nn: "nonneg x0"
    and cap: "\<And>c sol xt S_tc CH_tc. tc = Day (int c) \<Longrightarrow> c < n \<Longrightarrow>
        iterations SEAIHRD_markov_step x0 (Suc c) (\<beta>, k_avg, \<eta>, \<alpha>, \<gamma>I, \<mu>I, \<nu>, \<gamma>H, \<mu>H, \<kappa>0, \<sigma>, tc)
          = Inr (sol, xt, S_tc, CH_tc) \<Longrightarrow> \<kappa>0 * CH_tc \<le> 1"
  shows "\<exists>sol xt S_tc CH_tc.
           iterations SEAIHRD_markov_step x0 n (\<beta>, k_avg, \<eta>, \<alpha>, \<gamma>I, \<mu>I, \<nu>, \<gamma>H, \<mu>H, \<kappa>0, \<sigma>, tc)
             = Inr (sol, xt, S_tc, CH_tc)
           \<and> length sol = n
           \<and> (\<forall>i. Suc i < n \<longrightarrow> R_of (sol ! i) \<le> R_of (sol ! Suc i) \<and> D_of (sol ! i) \<le> D_of (sol ! Suc i))"
proof -
  let ?p = "(\<beta>, k_avg, \<eta>, \<alpha>, \<gamma>I, \<mu>I, \<nu>, \<gamma>H, \<mu>H, \<kappa>0, \<sigma>, tc)"
  let ?Q = "\<lambda>m (sol, xt, S_tc, CH_tc).
      nonneg xt \<and> 0 \<le> (S_tc :: real) \<and> 0 \<le> (CH_tc :: real)
      \<and> length sol = m
      \<and> (\<forall>i. Suc i < m \<longrightarrow> R_of (sol ! i) \<le> R_of (sol ! Suc i) \<and> D_of (sol ! i) \<le> D_of (sol ! Suc i))
      \<and> (0 < m \<longrightarrow> R_of (sol ! (m - 1)) \<le> R_of xt \<and> D_of (sol ! (m - 1)) \<le> D_of xt)"
  have init: "?Q 0 ([], x0, 0, 0)"
    using nn by simp
  have step: "\<exists>ls'. solve_body SEAIHRD_markov_step ?p m ls = Inr ls' \<and> ?Q (Suc m) ls'"
    if mn: "m < n" and it: "iterations SEAIHRD_markov_step x0 m ?p = Inr ls" and "?Q m ls" for m ls
  proof -
    obtain sol xt S_tc CH_tc where ls: "ls = (sol, xt, S_tc, CH_tc)" by (cases ls) auto
    from that have q: "nonneg xt" "0 \<le> S_tc" "0 \<le> CH_tc"
      and len: "length sol = m"
      and mono: "\<forall>i. Suc i < m \<longrightarrow> R_of (sol ! i) \<le> R_of (sol ! Suc i) \<and> D_of (sol ! i) \<le> D_of (sol ! Suc i)"
      and lst: "0 < m \<longrightarrow> R_of (sol ! (m - 1)) \<le> R_of xt \<and> D_of (sol ! (m - 1)) \<le> D_of xt"
      by (simp_all add: ls)
    from body_admissible [OF v q, of m sol] obtain xt' S_tc' CH_tc'
      where b: "solve_body SEAIHRD_markov_step ?p m (sol, xt, S_tc, CH_tc) = Inr (sol @ [xt], xt', S_tc', CH_tc')"
        and q': "0 \<le> S_tc'" "0 \<le> CH_tc'"
        and rd: "R_of xt \<le> R_of xt'" "D_of xt \<le> D_of xt'"
        and nn': "(tc = Day (int m) \<longrightarrow> \<kappa>0 * CH_tc' \<le> 1) \<longrightarrow> nonneg xt'"
      by blast
    have next_it: "iterations SEAIHRD_markov_step x0 (Suc m) ?p = Inr (sol @ [xt], xt', S_tc', CH_tc')"
      using it b by (simp add: iterations_Suc ls)
    have "nonneg xt'" using nn' cap [OF _ mn next_it] by blast
    moreover have "R_of ((sol @ [xt]) ! i) \<le> R_of ((sol @ [xt]) ! Suc i)
        \<and> D_of ((sol @ [xt]) ! i) \<le> D_of ((sol @ [xt]) ! Suc i)" if "Suc i < Suc m" for i
    proof (cases "Suc i < m")
      case True
      then show ?thesis using mono len by (simp add: nth_append)
    next
      case False
      with that have "Suc i = m" by simp
      then show ?thesis using lst len by (auto simp: nth_append)
    qed
    ultimately have "?Q (Suc m) (sol @ [xt], xt', S_tc', CH_tc')"
      using q' rd len by (simp add: nth_append)
    then show ?thesis using b ls by blast
  qed
  from iterations_defined_run [of ?Q x0 n SEAIHRD_markov_step ?p, OF init step]
  obtain ls where "iterations SEAIHRD_markov_step x0 n ?p = Inr ls" "?Q n ls" by blast
  then show ?thesis by (cases ls) auto
qed

lemma capture_run:
  "iterations SEAIHRD_markov_step (1/2, 0, 0, 0, 1/2, 0, 0, 0) (Suc 0)
     (0, 0, 0, 0, 1/2, 1/4, 0, 0, 0, 1/2, 1, Day 0)
   = Inr ([(1/2, 0, 0, 0, 1/2, 0, 0, 0)], (3/8, 0, 1/8, 0, 1/8, 0, 1/4, 1/8), 1/2, 1/2)"
  "solve SEAIHRD_markov_step (1/2, 0, 0, 0, 1/2, 0, 0, 0) 0 2
     (0, 0, 0, 0, 1/2, 1/4, 0, 0, 0, 1/2, 1, Day 0)
   = Inr [(1/2, 0, 0, 0, 1/2, 0, 0, 0), (3/8, 0, 1/8, 0, 1/8, 0, 1/4, 1/8)]"
  by (simp_all add: run_simps)

lemma capture_run_bounded:
  "\<forall>c sol xt S_tc CH_tc. Day 0 = Day (int c) \<longrightarrow> c < 2 \<longrightarrow>
     iterations SEAIHRD_markov_step (1/2, 0, 0, 0, 1/2, 0, 0, 0) (Suc c)
       (0, 0, 0, 0, 1/2, 1/4, 0, 0, 0, 1/2, 1, Day 0) = Inr (sol, xt, S_tc, CH_tc)
     \<longrightarrow> 1/2 * CH_tc \<le> 1"
proof (intro allI impI)
  fix c sol xt S_tc CH_tc
  assume "Day 0 = Day (int c)"
    and "iterations SEAIHRD_markov_step (1/2, 0, 0, 0, 1/2, 0, 0, 0) (Suc c)
       (0, 0, 0, 0, 1/2, 1/4, 0, 0, 0, 1/2, 1, Day 0) = Inr (sol, xt, S_tc, CH_tc)"
  then have "CH_tc = 1/2" by (simp add: capture_run(1))
  then show "1/2 * CH_tc \<le> 1" by simp
qed

section \<open>Conservation on valid runs\<close>

text \<open>
  Claim C1, amended. For all parameters with rates in [0,1], \<open>\<gamma>I + \<mu>I + \<nu> \<le> 1\<close>,
  \<open>\<gamma>H + \<mu>H \<le> 1\<close>, \<open>k_avg \<ge> 0\<close>, \<open>\<kappa>0\<close> in [0,1], \<open>\<sigma> \<ge> 1\<close>, and every initial vector of
  non-negative components that sum to 1 and whose \<open>CH\<close> component is 0: if the scalar
  captured at day \<open>tc\<close> satisfies \<open>\<kappa>0 \<cdot> CH_tc \<le> 1\<close> (nothing is required when day \<open>tc\<close>
  is not reached), then \<open>solve\<close> returns a trajectory of one row per day and the eight
  compartments of every row sum to 1, exactly in real arithmetic.
\<close>

theorem solve_conservation:
  assumes "0 \<le> \<beta>" "\<beta> \<le> 1" "0 \<le> k_avg" "0 \<le> \<eta>" "\<eta> \<le> 1" "0 \<le> \<alpha>" "\<alpha> \<le> 1"
    and "0 \<le> \<gamma>I" "0 \<le> \<mu>I" "0 \<le> \<nu>" "\<gamma>I + \<mu>I + \<nu> \<le> 1"
    and "0 \<le> \<gamma>H" "0 \<le> \<mu>H" "\<gamma>H + \<mu>H \<le> 1"
    and "0 \<le> \<kappa>0" "\<kappa>0 \<le> 1" "1 \<le> \<sigma>"
    and "0 \<le> S" "0 \<le> E" "0 \<le> A" "0 \<le> I" "0 \<le> H" "0 \<le> R" "0 \<le> D"
    and "S + E + A + I + H + R + D = 1"
    and cap: "\<forall>c sol xt S_tc CH_tc. tc = Day (int c) \<longrightarrow> c < n \<longrightarrow>
        iterations SEAIHRD_markov_step (S, E, 0, A, I, H, R, D) (Suc c)
          (\<beta>, k_avg, \<eta>, \<alpha>, \<gamma>I, \<mu>I, \<nu>, \<gamma>H, \<mu>H, \<kappa>0, \<sigma>, tc) = Inr (sol, xt, S_tc, CH_tc)
        \<longrightarrow> \<kappa>0 * CH_tc \<le> 1"
  shows "\<exists>sol. solve SEAIHRD_markov_step (S, E, 0, A, I, H, R, D) t0 n
                 (\<beta>, k_avg, \<eta>, \<alpha>, \<gamma>I, \<mu>I, \<nu>, \<gamma>H, \<mu>H, \<kappa>0, \<sigma>, tc) = Inr sol
           \<and> length sol = n
           \<and> (\<forall>x \<in> set sol. compartment_sum x = 1)"
proof -
  let ?p = "(\<beta>, k_avg, \<eta>, \<alpha>, \<gamma>I, \<mu>I, \<nu>, \<gamma>H, \<mu>H, \<kappa>0, \<sigma>, tc)"
  let ?x0 = "(S, E, 0, A, I, H, R, D)"
  have v: "valid_params ?p" using assms by simp
  have nn: "nonneg ?x0" using assms by (simp add: nonneg_def)
  have "\<exists>sol xt S_tc CH_tc. iterations SEAIHRD_markov_step ?x0 n ?p = Inr (sol, xt, S_tc, CH_tc)
      \<and> length sol = n
      \<and> (\<forall>i. Suc i < n \<longrightarrow> R_of (sol ! i) \<le> R_of (sol ! Suc i) \<and> D_of (sol ! i) \<le> D_of (sol ! Suc i))"
    using cap by (intro iterations_admissible [OF v nn]) blast
  then obtain sol where run: "solve SEAIHRD_markov_step ?x0 t0 n ?p = Inr sol"
    by (auto simp: solve_def)
  have "compartment_sum ?x0 = 1" "CH_of ?x0 = 0" using assms by simp_all
  from solve_conserves [OF run this] run show ?thesis by blast
qed

theorem solve_conservation_witness:
  "solve SEAIHRD_markov_step (1/2, 0, 0, 0, 1/2, 0, 0, 0) 0 2
     (0, 0, 0, 0, 1/2, 1/4, 0, 0, 0, 1/2, 1, Day 0)
   = Inr [(1/2, 0, 0, 0, 1/2, 0, 0, 0), (3/8, 0, 1/8, 0, 1/8, 0, 1/4, 1/8)]
   \<and> compartment_sum (1/2, 0, 0, 0, 1/2, 0, 0, 0) = 1
   \<and> compartment_sum (3/8, 0, 1/8, 0, 1/8, 0, 1/4, 1/8) = 1"
proof -
  have "\<exists>sol. solve SEAIHRD_markov_step (1/2, 0, 0, 0, 1/2, 0, 0, 0) 0 2
                 (0, 0, 0, 0, 1/2, 1/4, 0, 0, 0, 1/2, 1, Day 0) = Inr sol
           \<and> length sol = 2
           \<and> (\<forall>x \<in> set sol. compartment_sum x = 1)"
    by (rule solve_conservation; (rule capture_run_bounded | simp))
  then show ?thesis by (simp add: capture_run(2))
qed

text \<open>
  The step function does not carry \<open>CH\<close> over from one day to the next: with half of
  the population in \<open>CH\<close> at day 0 and no intervention, the compartments of the second
  row sum to one half.
\<close>

theorem solve_conservation_counterexample:
  "map_sum id (map compartment_sum)
     (solve SEAIHRD_markov_step (1/2, 0, 1/2, 0, 0, 0, 0, 0) 0 2
        (0, 0, 0, 0, 0, 0, 0, 0, 0, 0, 1, Never)) = Inr [1, 1/2]
   \<and> [1, 1/2 :: real] ! 1 \<noteq> 1"
  by (simp add: solve_def iterations_def upt_conv_Cons P_def pow_f_def k_def \<Theta>_def \<delta>_def)

text \<open>
  With a negative number of contacts the exponent of the infection probability is
  negative; at \<open>\<beta> = 1\<close> the power is then a division by zero and no row after the first
  is a row of numbers.
\<close>

lemma conservation_needs_contacts:
  "solve SEAIHRD_markov_step (1/2, 0, 0, 0, 1/2, 0, 0, 0) 0 2
     (1, - 1, 0, 0, 0, 0, 0, 0, 0, 0, 1, Never) = Inl NonFinite"
  by (simp add: run_simps)

section \<open>Recovered and deceased fractions\<close>

text \<open>
  Claim C5, amended. For all parameters with rates in [0,1], \<open>\<gamma>I + \<mu>I + \<nu> \<le> 1\<close>,
  \<open>\<gamma>H + \<mu>H \<le> 1\<close>, \<open>k_avg \<ge> 0\<close>, \<open>\<kappa>0\<close> in [0,1], \<open>\<sigma> \<ge> 1\<close>, and every non-negative
  initial state: if the scalar captured at day \<open>tc\<close> satisfies \<open>\<kappa>0 \<cdot> CH_tc \<le> 1\<close> (nothing
  is required when day \<open>tc\<close> is not reached), then \<open>solve\<close> returns a trajectory of \<open>n\<close>
  rows in which \<open>R\<close> and \<open>D\<close> are non-decreasing from each day to the next.
\<close>

theorem solve_monotone:
  assumes "0 \<le> \<beta>" "\<beta> \<le> 1" "0 \<le> k_avg" "0 \<le> \<eta>" "\<eta> \<le> 1" "0 \<le> \<alpha>" "\<alpha> \<le> 1"
    and "0 \<le> \<gamma>I" "0 \<le> \<mu>I" "0 \<le> \<nu>" "\<gamma>I + \<mu>I + \<nu> \<le> 1"
    and "0 \<le> \<gamma>H" "0 \<le> \<mu>H" "\<gamma>H + \<mu>H \<le> 1"
    and "0 \<le> \<kappa>0" "\<kappa>0 \<le> 1" "1 \<le> \<sigma>"
    and "0 \<le> S" "0 \<le> E" "0 \<le> CH" "0 \<le> A" "0 \<le> I" "0 \<le> H" "0 \<le> R" "0 \<le> D"
    and cap: "\<forall>c sol xt S_tc CH_tc. tc = Day (int c) \<longrightarrow> c < n \<longrightarrow>
        iterations SEAIHRD_markov_step (S, E, CH, A, I, H, R, D) (Suc c)
          (\<beta>, k_avg, \<eta>, \<alpha>, \<gamma>I, \<mu>I, \<nu>, \<gamma>H, \<mu>H, \<kappa>0, \<sigma>, tc) = Inr (sol, xt, S_tc, CH_tc)
        \<longrightarrow> \<kappa>0 * CH_tc \<le> 1"
  shows "\<exists>sol. solve SEAIHRD_markov_step (S, E, CH, A, I, H, R, D) t0 n
                 (\<beta>, k_avg, \<eta>, \<alpha>, \<gamma>I, \<mu>I, \<nu>, \<gamma>H, \<mu>H, \<kappa>0, \<sigma>, tc) = Inr sol
           \<and> length sol = n
           \<and> (\<forall>t. t + 1 < n \<longrightarrow> Recovered sol ! t \<le> Recovered sol ! (t + 1)
                               \<and> Deceased sol ! t \<le> Deceased sol ! (t + 1))"
proof -
  let ?p = "(\<beta>, k_avg, \<eta>, \<alpha>, \<gamma>I, \<mu>I, \<nu>, \<gamma>H, \<mu>H, \<kappa>0, \<sigma>, tc)"
  let ?x0 = "(S, E, CH, A, I, H, R, D)"
  have v: "valid_params ?p" using assms by simp
  have nn: "nonneg ?x0" using assms by (simp add: nonneg_def)
  have "\<exists>sol xt S_tc CH_tc. iterations SEAIHRD_markov_step ?x0 n ?p = Inr (sol, xt, S_tc, CH_tc)
      \<and> length sol = n
      \<and> (\<forall>i. Suc i < n \<longrightarrow> R_of (sol ! i) \<le> R_of (sol ! Suc i) \<and> D_of (sol ! i) \<le> D_of (sol ! Suc i))"
    using cap by (intro iterations_admissible [OF v nn]) blast
  then obtain sol xt S_tc CH_tc
    where it: "iterations SEAIHRD_markov_step ?x0 n ?p = Inr (sol, xt, S_tc, CH_tc)"
      and len: "length sol = n"
      and mono: "\<forall>i. Suc i < n \<longrightarrow> R_of (sol ! i) \<le> R_of (sol ! Suc i) \<and> D_of (sol ! i) \<le> D_of (sol ! Suc i)"
    by blast
  have "solve SEAIHRD_markov_step ?x0 t0 n ?p = Inr sol"
    using it by (simp add: solve_def)
  moreover have "Recovered sol ! t \<le> Recovered sol ! (t + 1) \<and> Deceased sol ! t \<le> Deceased sol ! (t + 1)"
    if "t + 1 < n" for t
    using that mono len by (simp add: Recovered_def Deceased_def)
  ultimately show ?thesis using len by blast
qed

theorem solve_monotone_witness:
  "solve SEAIHRD_markov_step (1/2, 0, 0, 0, 1/2, 0, 0, 0) 0 2
     (0, 0, 0, 0, 1/2, 1/4, 0, 0, 0, 1/2, 1, Day 0)
   = Inr [(1/2, 0, 0, 0, 1/2, 0, 0, 0), (3/8, 0, 1/8, 0, 1/8, 0, 1/4, 1/8)]
   \<and> Recovered [(1/2, 0, 0, 0, 1/2, 0, 0, 0), (3/8, 0, 1/8, 0, 1/8, 0, 1/4, 1/8)] ! 0
       \<le> Recovered [(1/2, 0, 0, 0, 1/2, 0, 0, 0), (3/8, 0, 1/8, 0, 1/8, 0, 1/4, 1/8)] ! (0 + 1)
   \<and> Deceased [(1/2, 0, 0, 0, 1/2, 0, 0, 0), (3/8, 0, 1/8, 0, 1/8, 0, 1/4, 1/8)] ! 0
       \<le> Deceased [(1/2, 0, 0, 0, 1/2, 0, 0, 0), (3/8, 0, 1/8, 0, 1/8, 0, 1/4, 1/8)] ! (0 + 1)"
proof -
  have "\<exists>sol. solve SEAIHRD_markov_step (1/2, 0, 0, 0, 1/2, 0, 0, 0) 0 2
                 (0, 0, 0, 0, 1/2, 1/4, 0, 0, 0, 1/2, 1, Day 0) = Inr sol
           \<and> length sol = 2
           \<and> (\<forall>t. t + 1 < 2 \<longrightarrow> Recovered sol ! t \<le> Recovered sol ! (t + 1)
                               \<and> Deceased sol ! t \<le> Deceased sol ! (t + 1))"
    by (rule solve_monotone; (rule capture_run_bounded | simp))
  then have "\<forall>t. t + 1 < (2::nat) \<longrightarrow>
       Recovered [(1/2, 0, 0, 0, 1/2, 0, 0, 0), (3/8, 0, 1/8, 0, 1/8, 0, 1/4, 1/8)] ! t
         \<le> Recovered [(1/2, 0, 0, 0, 1/2, 0, 0, 0), (3/8, 0, 1/8, 0, 1/8, 0, 1/4, 1/8)] ! (t + 1)
       \<and> Deceased [(1/2, 0, 0, 0, 1/2, 0, 0, 0), (3/8, 0, 1/8, 0, 1/8, 0, 1/4, 1/8)] ! t
         \<le> Deceased [(1/2, 0, 0, 0, 1/2, 0, 0, 0), (3/8, 0, 1/8, 0, 1/8, 0, 1/4, 1/8)] ! (t + 1)"
    by (simp only: capture_run(2)) blast
  from this [rule_format, of 0] show ?thesis by (simp add: capture_run(2))
qed

text \<open>
  With \<open>\<gamma>I = \<mu>I = 1\<close>, both in [0,1], an infected fraction of 1 becomes \<open>-1\<close> after
  one day and the recovered fraction goes 0, 1, 0.
\<close>

theorem solve_monotone_counterexample:
  "map_sum id Recovered
     (solve SEAIHRD_markov_step (0, 0, 0, 0, 1, 0, 0, 0) 0 3
        (0, 0, 0, 0, 1, 1, 0, 0, 0, 0, 1, Never)) = Inr [0, 1, 0]
   \<and> [0, 1, 0 :: real] ! (1 + 1) < [0, 1, 0] ! 1"
  by (simp add: solve_def iterations_def upt_conv_Cons P_def pow_f_def k_def \<Theta>_def \<delta>_def
      Recovered_def)

text \<open>
  The two other conditions are needed as well. A negative number of contacts makes the
  infection probability negative. An initial state of more than the whole population
  gives a captured scalar with \<open>\<kappa>0 \<cdot> CH_tc = 4\<close>, so that \<open>S\<close> and \<open>E\<close> are negative on the
  next day. Either way \<open>E\<close>, then \<open>A\<close>, then \<open>I\<close> turn negative and \<open>R\<close> falls.
\<close>

lemma monotone_needs_contacts:
  "map_sum id Recovered
     (solve SEAIHRD_markov_step (1/2, 0, 0, 0, 1/2, 0, 0, 0) 0 5
        (1/2, - 2, 1, 1, 1, 0, 0, 0, 0, 0, 1, Never)) = Inr [0, 1/2, 1/2, 1/2, 0]"
  by (simp add: run_simps Recovered_def powr_minus)

lemma monotone_needs_fractions:
  "map_sum id Recovered
     (solve SEAIHRD_markov_step (2, 0, 0, 0, 1, 0, 0, 0) 0 5
        (1/2, 1, 1, 1, 1, 0, 0, 0, 0, 1, 2, Day 0)) = Inr [0, 1, 1, 1, - 2]"
  by (simp add: run_simps Recovered_def powr_minus)

lemma monotone_capture_scalar:
  "iterations SEAIHRD_markov_step (2, 0, 0, 0, 1, 0, 0, 0) (Suc 0)
     (1/2, 1, 1, 1, 1, 0, 0, 0, 0, 1, 2, Day 0)
   = Inr ([(2, 0, 0, 0, 1, 0, 0, 0)], (- 3, - 3, 8, 0, 0, 0, 1, 0), 2, 4)"
  by (simp add: run_simps)

section \<open>The frozen scalars\<close>

lemma iterations_frozen:
  assumes it: "iterations SEAIHRD_markov_step x0 m
                 (\<beta>, k_avg, \<eta>, \<alpha>, \<gamma>I, \<mu>I, \<nu>, \<gamma>H, \<mu>H, \<kappa>0, \<sigma>, Day (int c)) = Inr (sol, xt, S_tc, CH_tc)"
  shows "m \<le> c \<Longrightarrow> S_tc = 0 \<and> CH_tc = 0"
    and "m \<le> c \<Longrightarrow> CH_of x0 = 0 \<Longrightarrow> CH_of xt = 0 \<and> (\<forall>i<m. CH_of (sol ! i) = 0)"
    and "c < m \<Longrightarrow> S_tc = S_of (sol ! c) \<and> pow_f (S_of (sol ! c) + R_of (sol ! c)) \<sigma> = Inr CH_tc"
    and "c < m \<Longrightarrow> CH_of xt = S_tc * \<kappa>0 * CH_tc \<and> (\<forall>i. c < i \<and> i < m \<longrightarrow> CH_of (sol ! i) = S_tc * \<kappa>0 * CH_tc)"
    and "c < m \<Longrightarrow> CH_of x0 = 0 \<Longrightarrow> (\<forall>i\<le>c. CH_of (sol ! i) = 0)"
proof -
  let ?p = "(\<beta>, k_avg, \<eta>, \<alpha>, \<gamma>I, \<mu>I, \<nu>, \<gamma>H, \<mu>H, \<kappa>0, \<sigma>, Day (int c))"
  let ?Q = "\<lambda>m (sol, xt, S_tc, CH_tc).
      length sol = m
      \<and> (m \<le> c \<longrightarrow> S_tc = 0 \<and> CH_tc = 0
            \<and> (CH_of x0 = 0 \<longrightarrow> CH_of xt = 0 \<and> (\<forall>i<m. CH_of (sol ! i) = 0)))
      \<and> (c < m \<longrightarrow> S_tc = S_of (sol ! c) \<and> pow_f (S_of (sol ! c) + R_of (sol ! c)) \<sigma> = Inr CH_tc
            \<and> CH_of xt = S_tc * \<kappa>0 * CH_tc
            \<and> (\<forall>i. c < i \<and> i < m \<longrightarrow> CH_of (sol ! i) = S_tc * \<kappa>0 * CH_tc)
            \<and> (CH_of x0 = 0 \<longrightarrow> (\<forall>i\<le>c. CH_of (sol ! i) = 0)))"
  have "?Q m (sol, xt, S_tc, CH_tc)"
  proof (rule iterations_invariant [OF it])
    show "?Q 0 ([], x0, 0, 0)" by simp
  next
    fix j ls ls'
    assume q: "?Q j ls" and b: "solve_body SEAIHRD_markov_step ?p j ls = Inr ls'"
    obtain sol1 xt1 S1 C1 where ls: "ls = (sol1, xt1, S1, C1)" by (cases ls) auto
    obtain sol2 xt2 S2 C2 where ls': "ls' = (sol2, xt2, S2, C2)" by (cases ls') auto
    note b' = b [unfolded ls ls']
    have rows: "sol2 = sol1 @ [xt1]" using body_frozen(1) [OF b'] .
    obtain S E CH A I H R D where xt1: "xt1 = (S, E, CH, A, I, H, R, D)" by (rule state_cases)
    have ch2: "CH_of xt2 = S2 * \<kappa>0 * C2 * \<Theta> (int j) (Day (int c))"
      using step_total(2) [OF body_frozen(2) [OF b', unfolded xt1]] .
    from q have len: "length sol1 = j" by (simp add: ls)
    consider "j < c" | "j = c" | "c < j" by linarith
    then show "?Q (Suc j) ls'"
    proof cases
      case 1
      then have "Day (int c) \<noteq> Day (int j)" by simp
      from body_frozen(4) [OF b' this] have f: "S2 = S1" "C2 = C1" by simp_all
      from q 1 have z: "S1 = 0" "C1 = 0"
        "CH_of x0 = 0 \<longrightarrow> CH_of xt1 = 0 \<and> (\<forall>i<j. CH_of (sol1 ! i) = 0)"
        by (simp_all add: ls)
      show ?thesis using 1 f z ch2 len rows
        by (auto simp: ls' nth_append less_Suc_eq)
    next
      case 2
      then have "Day (int c) = Day (int j)" by simp
      from body_frozen(3) [OF b' this]
      have f: "S2 = S_of xt1" "pow_f (S_of xt1 + R_of xt1) \<sigma> = Inr C2" by simp_all
      from q 2 have z: "CH_of x0 = 0 \<longrightarrow> CH_of xt1 = 0 \<and> (\<forall>i<j. CH_of (sol1 ! i) = 0)"
        by (simp add: ls)
      show ?thesis using 2 f z ch2 len rows
        by (auto simp: ls' nth_append Theta_at less_Suc_eq_le)
    next
      case 3
      then have "Day (int c) \<noteq> Day (int j)" by simp
      from body_frozen(4) [OF b' this] have f: "S2 = S1" "C2 = C1" by simp_all
      from q 3 have z: "S1 = S_of (sol1 ! c)" "pow_f (S_of (sol1 ! c) + R_of (sol1 ! c)) \<sigma> = Inr C1"
        "CH_of xt1 = S1 * \<kappa>0 * C1"
        "\<forall>i. c < i \<and> i < j \<longrightarrow> CH_of (sol1 ! i) = S1 * \<kappa>0 * C1"
        "CH_of x0 = 0 \<longrightarrow> (\<forall>i\<le>c. CH_of (sol1 ! i) = 0)"
        by (simp_all add: ls)
      have th: "\<Theta> (int j) (Day (int c)) = 1" using 3 by (simp add: Theta_after)
      show ?thesis using 3 f z ch2 len rows th
        by (auto simp: ls' nth_append less_Suc_eq)
    qed
  qed
  then show "m \<le> c \<Longrightarrow> S_tc = 0 \<and> CH_tc = 0"
    and "m \<le> c \<Longrightarrow> CH_of x0 = 0 \<Longrightarrow> CH_of xt = 0 \<and> (\<forall>i<m. CH_of (sol ! i) = 0)"
    and "c < m \<Longrightarrow> S_tc = S_of (sol ! c) \<and> pow_f (S_of (sol ! c) + R_of (sol ! c)) \<sigma> = Inr CH_tc"
    and "c < m \<Longrightarrow> CH_of xt = S_tc * \<kappa>0 * CH_tc \<and> (\<forall>i. c < i \<and> i < m \<longrightarrow> CH_of (sol ! i) = S_tc * \<kappa>0 * CH_tc)"
    and "c < m \<Longrightarrow> CH_of x0 = 0 \<Longrightarrow> (\<forall>i\<le>c. CH_of (sol ! i) = 0)"
    by simp_all
qed

text \<open>
  Claim C3, amended. For every run of \<open>solve\<close> with \<open>0 \<le> tc \<le> horizon - 1\<close> (\<open>tc\<close> the
  natural number \<open>c\<close>), \<open>\<kappa>0 > 0\<close>, an initial state with \<open>CH = 0\<close>, and \<open>S > 0\<close>,
  \<open>S + R > 0\<close> at day \<open>tc\<close>: the frozen scalars are 0 after each of the first \<open>tc\<close>
  iterations and are \<open>S(tc)\<close> and \<open>(S(tc) + R(tc)) ** \<sigma>\<close> after every later one; the
  \<open>CH\<close> column is 0 at every index up to \<open>tc\<close>; and when \<open>tc \<le> horizon - 2\<close> it is
  positive at index \<open>tc + 1\<close>. For \<open>tc = horizon - 1\<close> the trajectory has no row
  \<open>tc + 1\<close>.
\<close>

theorem freeze_once:
  assumes run: "solve SEAIHRD_markov_step x0 t0 n
                  (\<beta>, k_avg, \<eta>, \<alpha>, \<gamma>I, \<mu>I, \<nu>, \<gamma>H, \<mu>H, \<kappa>0, \<sigma>, Day (int c)) = Inr sol"
    and cn: "c < n"
    and k0: "0 < \<kappa>0"
    and ch0: "CH_of x0 = 0"
    and s: "0 < Suceptibles sol ! c"
    and sr: "0 < Suceptibles sol ! c + Recovered sol ! c"
  shows "(\<forall>m\<le>n. \<exists>sol_m xt_m S_tc CH_tc.
            iterations SEAIHRD_markov_step x0 m
              (\<beta>, k_avg, \<eta>, \<alpha>, \<gamma>I, \<mu>I, \<nu>, \<gamma>H, \<mu>H, \<kappa>0, \<sigma>, Day (int c)) = Inr (sol_m, xt_m, S_tc, CH_tc)
            \<and> (if m \<le> c then S_tc = 0 \<and> CH_tc = 0
               else S_tc = Suceptibles sol ! c
                  \<and> CH_tc = (Suceptibles sol ! c + Recovered sol ! c) powr \<sigma>))
       \<and> (\<forall>i\<le>c. Quarantined sol ! i = 0)
       \<and> (c + 1 < n \<longrightarrow> 0 < Quarantined sol ! (c + 1))"
proof -
  let ?p = "(\<beta>, k_avg, \<eta>, \<alpha>, \<gamma>I, \<mu>I, \<nu>, \<gamma>H, \<mu>H, \<kappa>0, \<sigma>, Day (int c))"
  let ?S = "Suceptibles sol ! c" and ?R = "Recovered sol ! c"
  from run obtain xt S_fin CH_fin
    where it: "iterations SEAIHRD_markov_step x0 n ?p = Inr (sol, xt, S_fin, CH_fin)"
    by (auto simp: solve_Inr_iff)
  have len: "length sol = n" using iterations_length [OF it] .
  have col: "S_of (sol ! c) = ?S" "R_of (sol ! c) = ?R"
    using cn len by (simp_all add: Suceptibles_def Recovered_def)
  have pw: "pow_f (?S + ?R) \<sigma> = Inr ((?S + ?R) powr \<sigma>)" using sr by (simp add: pow_f_def)
  have 1: "\<exists>sol_m xt_m S_tc CH_tc.
            iterations SEAIHRD_markov_step x0 m ?p = Inr (sol_m, xt_m, S_tc, CH_tc)
            \<and> (if m \<le> c then S_tc = 0 \<and> CH_tc = 0
               else S_tc = ?S \<and> CH_tc = (?S + ?R) powr \<sigma>)" if "m \<le> n" for m
  proof -
    from iterations_take [OF it that] obtain xt' S' C'
      where m: "iterations SEAIHRD_markov_step x0 m ?p = Inr (take m sol, xt', S', C')" by blast
    show ?thesis
    proof (cases "m \<le> c")
      case True
      from iterations_frozen(1) [OF m True] have "S' = 0 \<and> C' = 0" .
      with m True show ?thesis
        by (intro exI [of _ "take m sol"] exI [of _ xt'] exI [of _ S'] exI [of _ C']) simp
    next
      case False
      then have cm: "c < m" by simp
      from iterations_frozen(3) [OF m cm] col pw cm
      have "S' = ?S \<and> C' = (?S + ?R) powr \<sigma>" by simp
      with m False show ?thesis
        by (intro exI [of _ "take m sol"] exI [of _ xt'] exI [of _ S'] exI [of _ C']) simp
    qed
  qed
  have 2: "Quarantined sol ! i = 0" if "i \<le> c" for i
    using iterations_frozen(5) [OF it cn ch0] that cn len by (simp add: Quarantined_def)
  have 3: "0 < Quarantined sol ! (c + 1)" if "c + 1 < n"
  proof -
    from iterations_frozen(3) [OF it cn] col pw
    have f: "S_fin = ?S" "CH_fin = (?S + ?R) powr \<sigma>" by simp_all
    from iterations_frozen(4) [OF it cn] that
    have "CH_of (sol ! (c + 1)) = S_fin * \<kappa>0 * CH_fin" by simp
    then have "Quarantined sol ! (c + 1) = ?S * \<kappa>0 * (?S + ?R) powr \<sigma>"
      using f that len by (simp add: Quarantined_def)
    moreover have "0 < (?S + ?R) powr \<sigma>" using sr by simp
    ultimately show ?thesis using s k0 by simp
  qed
  show ?thesis using 1 2 3 by blast
qed

theorem freeze_once_witness:
  "solve SEAIHRD_markov_step (1, 0, 0, 0, 0, 0, 0, 0) 0 3
     (0, 0, 0, 0, 0, 0, 0, 0, 0, 1/2, 1, Day (int 0))
   = Inr [(1, 0, 0, 0, 0, 0, 0, 0), (1/2, 0, 1/2, 0, 0, 0, 0, 0), (1/2, 0, 1/2, 0, 0, 0, 0, 0)]
   \<and> Quarantined [(1, 0, 0, 0, 0, 0, 0, 0), (1/2, 0, 1/2, 0, 0, 0, 0, 0), (1/2, 0, 1/2, 0, 0, 0, 0, 0)] ! 0 = 0
   \<and> 0 < Quarantined [(1, 0, 0, 0, 0, 0, 0, 0), (1/2, 0, 1/2, 0, 0, 0, 0, 0), (1/2, 0, 1/2, 0, 0, 0, 0, 0)] ! (0 + 1)
   \<and> iterations SEAIHRD_markov_step (1, 0, 0, 0, 0, 0, 0, 0) 0
        (0, 0, 0, 0, 0, 0, 0, 0, 0, 1/2, 1, Day (int 0)) = Inr ([], (1, 0, 0, 0, 0, 0, 0, 0), 0, 0)
   \<and> iterations SEAIHRD_markov_step (1, 0, 0, 0, 0, 0, 0, 0) 2
        (0, 0, 0, 0, 0, 0, 0, 0, 0, 1/2, 1, Day (int 0))
      = Inr ([(1, 0, 0, 0, 0, 0, 0, 0), (1/2, 0, 1/2, 0, 0, 0, 0, 0)], (1/2, 0, 1/2, 0, 0, 0, 0, 0), 1, 1)"
proof -
  let ?sol = "[(1, 0, 0, 0, 0, 0, 0, 0), (1/2, 0, 1/2, 0, 0, 0, 0, 0), (1/2, 0, 1/2, 0, 0, 0, 0, 0)] :: state list"
  have a: "(0::nat) < 3" "(0::real) < 1/2" "CH_of (1, 0, 0, 0, 0, 0, 0, 0) = 0"
    "0 < Suceptibles ?sol ! 0" "0 < Suceptibles ?sol ! 0 + Recovered ?sol ! 0"
    by (simp_all add: Suceptibles_def Recovered_def)
  have b: "iterations SEAIHRD_markov_step (1, 0, 0, 0, 0, 0, 0, 0) 2
        (0, 0, 0, 0, 0, 0, 0, 0, 0, 1/2, 1, Day (int 0))
      = Inr ([(1, 0, 0, 0, 0, 0, 0, 0), (1/2, 0, 1/2, 0, 0, 0, 0, 0)], (1/2, 0, 1/2, 0, 0, 0, 0, 0), 1, 1)"
    by (simp add: run_simps)
  from freeze_once [OF freeze_run a] freeze_run b show ?thesis
    by (simp add: iterations_0)
qed

text \<open>
  With a horizon of one day and \<open>tc = 0\<close> the trajectory is the initial row alone;
  reading row \<open>tc + 1\<close> of it fails.
\<close>

theorem freeze_once_counterexample:
  "solve SEAIHRD_markov_step (1, 0, 0, 0, 0, 0, 0, 0) 0 1
     (0, 0, 0, 0, 0, 0, 0, 0, 0, 1/2, 1, Day 0) = Inr [(1, 0, 0, 0, 0, 0, 0, 0)]
   \<and> getitem (Quarantined [(1, 0, 0, 0, 0, 0, 0, 0)]) (0 + 1) = Inl IndexError"
  by (simp add: run_simps getitem_def Quarantined_def)

text \<open>
  Claim C10. In every trajectory produced by \<open>solve\<close> with \<open>0 \<le> tc \<le> horizon - 2\<close>
  (here \<open>tc\<close> is the natural number \<open>c\<close>), the \<open>CH\<close> column is constant from index
  \<open>tc + 1\<close> to the end, equal to \<open>S(tc) \<cdot> \<kappa>0 \<cdot> (S(tc) + R(tc)) ** \<sigma>\<close> at every such index.
\<close>

theorem quarantined_constant:
  assumes run: "solve SEAIHRD_markov_step x0 t0 n
                  (\<beta>, k_avg, \<eta>, \<alpha>, \<gamma>I, \<mu>I, \<nu>, \<gamma>H, \<mu>H, \<kappa>0, \<sigma>, Day (int c)) = Inr sol"
    and c: "c + 2 \<le> n"
  shows "\<exists>v. pow_f (Suceptibles sol ! c + Recovered sol ! c) \<sigma> = Inr v
           \<and> (\<forall>i. c < i \<and> i < n \<longrightarrow> Quarantined sol ! i = Suceptibles sol ! c * \<kappa>0 * v)"
proof -
  from run obtain xt S_tc CH_tc
    where it: "iterations SEAIHRD_markov_step x0 n
                 (\<beta>, k_avg, \<eta>, \<alpha>, \<gamma>I, \<mu>I, \<nu>, \<gamma>H, \<mu>H, \<kappa>0, \<sigma>, Day (int c)) = Inr (sol, xt, S_tc, CH_tc)"
    by (auto simp: solve_Inr_iff)
  have len: "length sol = n" using iterations_length [OF it] .
  from c have cn: "c < n" by simp
  note f = iterations_frozen(3,4) [OF it cn]
  have "pow_f (Suceptibles sol ! c + Recovered sol ! c) \<sigma> = Inr CH_tc"
    using f(1) cn len by (simp add: Suceptibles_def Recovered_def)
  moreover have "Quarantined sol ! i = Suceptibles sol ! c * \<kappa>0 * CH_tc" if "c < i \<and> i < n" for i
    using f that cn len by (simp add: Suceptibles_def Quarantined_def)
  ultimately show ?thesis by blast
qed

theorem quarantined_constant_witness:
  "solve SEAIHRD_markov_step (1, 0, 0, 0, 0, 0, 0, 0) 0 3
     (0, 0, 0, 0, 0, 0, 0, 0, 0, 1/2, 1, Day (int 0))
   = Inr [(1, 0, 0, 0, 0, 0, 0, 0), (1/2, 0, 1/2, 0, 0, 0, 0, 0), (1/2, 0, 1/2, 0, 0, 0, 0, 0)]
   \<and> pow_f (1 + 0) 1 = Inr 1
   \<and> Quarantined [(1, 0, 0, 0, 0, 0, 0, 0), (1/2, 0, 1/2, 0, 0, 0, 0, 0), (1/2, 0, 1/2, 0, 0, 0, 0, 0)] ! 1
       = 1 * (1/2) * 1
   \<and> Quarantined [(1, 0, 0, 0, 0, 0, 0, 0), (1/2, 0, 1/2, 0, 0, 0, 0, 0), (1/2, 0, 1/2, 0, 0, 0, 0, 0)] ! 2
       = 1 * (1/2) * 1"
proof -
  have "(0::nat) + 2 \<le> 3" by simp
  from quarantined_constant [OF freeze_run this] freeze_run show ?thesis
    by (simp add: pow_f_def Quarantined_def)
qed

section \<open>No intervention\<close>

lemma body_never:
  assumes "tc = Never \<or> (\<exists>c. tc = Day c \<and> int m < c)"
  shows "solve_body SEAIHRD_markov_step (\<beta>, k_avg, \<eta>, \<alpha>, \<gamma>I, \<mu>I, \<nu>, \<gamma>H, \<mu>H, \<kappa>0, \<sigma>, tc) m (sol, xt, 0, 0)
         = solve_body SEAIHRD_markov_step (\<beta>, k_avg, \<eta>, \<alpha>, \<gamma>I, \<mu>I, \<nu>, \<gamma>H, \<mu>H, 0, \<sigma>, tc) m (sol, xt, 0, 0)"
    and "solve_body SEAIHRD_markov_step (\<beta>, k_avg, \<eta>, \<alpha>, \<gamma>I, \<mu>I, \<nu>, \<gamma>H, \<mu>H, \<kappa>0, \<sigma>, tc) m (sol, xt, 0, 0)
           = Inr (sol', xt', S_tc', CH_tc') \<Longrightarrow> S_tc' = 0 \<and> CH_tc' = 0"
proof -
  obtain S E CH A I H R D where xt: "xt = (S, E, CH, A, I, H, R, D)" by (rule state_cases)
  from assms have th: "\<Theta> (int m) tc = 0" by (auto simp: Theta_Never Theta_before)
  from assms have ne: "Day (int m) \<noteq> tc" by auto
  then have d: "\<delta> (int m) tc = 0" by (simp add: \<delta>_def)
  have "P I A (int m) \<beta> k_avg \<kappa>0 \<sigma> tc = P I A (int m) \<beta> k_avg 0 \<sigma> tc"
    by (simp add: P_def k_def th)
  then show "solve_body SEAIHRD_markov_step (\<beta>, k_avg, \<eta>, \<alpha>, \<gamma>I, \<mu>I, \<nu>, \<gamma>H, \<mu>H, \<kappa>0, \<sigma>, tc) m (sol, xt, 0, 0)
         = solve_body SEAIHRD_markov_step (\<beta>, k_avg, \<eta>, \<alpha>, \<gamma>I, \<mu>I, \<nu>, \<gamma>H, \<mu>H, 0, \<sigma>, tc) m (sol, xt, 0, 0)"
    using ne by (auto simp: xt th d split: sum.splits)
  show "S_tc' = 0 \<and> CH_tc' = 0"
    if "solve_body SEAIHRD_markov_step (\<beta>, k_avg, \<eta>, \<alpha>, \<gamma>I, \<mu>I, \<nu>, \<gamma>H, \<mu>H, \<kappa>0, \<sigma>, tc) m (sol, xt, 0, 0)
           = Inr (sol', xt', S_tc', CH_tc')"
    using body_frozen(4) [OF that] ne by auto
qed

lemma iterations_never:
  assumes "tc = Never \<or> (\<exists>c. tc = Day c \<and> int n \<le> c)" "m \<le> n"
  shows "iterations SEAIHRD_markov_step x0 m (\<beta>, k_avg, \<eta>, \<alpha>, \<gamma>I, \<mu>I, \<nu>, \<gamma>H, \<mu>H, \<kappa>0, \<sigma>, tc)
         = iterations SEAIHRD_markov_step x0 m (\<beta>, k_avg, \<eta>, \<alpha>, \<gamma>I, \<mu>I, \<nu>, \<gamma>H, \<mu>H, 0, \<sigma>, tc)
       \<and> (\<forall>sol xt S_tc CH_tc.
            iterations SEAIHRD_markov_step x0 m (\<beta>, k_avg, \<eta>, \<alpha>, \<gamma>I, \<mu>I, \<nu>, \<gamma>H, \<mu>H, \<kappa>0, \<sigma>, tc)
              = Inr (sol, xt, S_tc, CH_tc) \<longrightarrow> S_tc = 0 \<and> CH_tc = 0)"
  using assms(2)
proof (induction m)
  case 0
  then show ?case by (simp add: iterations_0)
next
  case (Suc m)
  let ?p = "(\<beta>, k_avg, \<eta>, \<alpha>, \<gamma>I, \<mu>I, \<nu>, \<gamma>H, \<mu>H, \<kappa>0, \<sigma>, tc)"
  let ?q = "(\<beta>, k_avg, \<eta>, \<alpha>, \<gamma>I, \<mu>I, \<nu>, \<gamma>H, \<mu>H, 0, \<sigma>, tc)"
  from Suc.prems have mn: "m \<le> n" by simp
  note IH = Suc.IH [OF mn]
  from IH have ih: "iterations SEAIHRD_markov_step x0 m ?p = iterations SEAIHRD_markov_step x0 m ?q"
    by (rule conjunct1)
  have z: "S_tc = 0 \<and> CH_tc = 0"
    if "iterations SEAIHRD_markov_step x0 m ?p = Inr (sol, xt, S_tc, CH_tc)" for sol xt S_tc CH_tc
    using conjunct2 [OF IH] that by blast
  from assms(1) Suc.prems have nv: "tc = Never \<or> (\<exists>c. tc = Day c \<and> int m < c)" by auto
  show ?case
  proof (cases "iterations SEAIHRD_markov_step x0 m ?p")
    case (Inl err)
    then show ?thesis using ih by (simp add: iterations_Suc)
  next
    case (Inr ls)
    obtain sol xt S_tc CH_tc where ls: "ls = (sol, xt, S_tc, CH_tc)" by (cases ls) auto
    from z [OF Inr [unfolded ls]] have fz: "S_tc = 0" "CH_tc = 0" by simp_all
    have a: "iterations SEAIHRD_markov_step x0 (Suc m) ?p
               = solve_body SEAIHRD_markov_step ?p m (sol, xt, 0, 0)"
      using Inr ls fz by (simp add: iterations_Suc)
    have b: "iterations SEAIHRD_markov_step x0 (Suc m) ?q
               = solve_body SEAIHRD_markov_step ?q m (sol, xt, 0, 0)"
      using Inr ls fz ih by (simp add: iterations_Suc)
    show ?thesis unfolding a b
    proof (intro conjI allI impI)
      show "solve_body SEAIHRD_markov_step ?p m (sol, xt, 0, 0)
              = solve_body SEAIHRD_markov_step ?q m (sol, xt, 0, 0)"
        by (rule body_never(1) [OF nv])
    next
      fix sol' xt' S_tc' CH_tc'
      assume "solve_body SEAIHRD_markov_step ?p m (sol, xt, 0, 0) = Inr (sol', xt', S_tc', CH_tc')"
      then show "S_tc' = 0" "CH_tc' = 0" using body_never(2) [OF nv] by blast+
    qed
  qed
qed

text \<open>
  Claim C4. For every initial state and horizon \<open>n\<close>, when \<open>tc\<close> is never reached
  (\<open>np.inf\<close>, or a day \<open>\<ge> n\<close>), \<open>solve\<close> gives the same result as with \<open>\<kappa>0 = 0\<close> and
  all other parameters equal, and in both runs the frozen scalars are 0 after every
  number of iterations.
\<close>

theorem no_intervention:
  assumes "tc = Never \<or> (\<exists>c. tc = Day c \<and> int n \<le> c)"
  shows "solve SEAIHRD_markov_step x0 t0 n (\<beta>, k_avg, \<eta>, \<alpha>, \<gamma>I, \<mu>I, \<nu>, \<gamma>H, \<mu>H, \<kappa>0, \<sigma>, tc)
         = solve SEAIHRD_markov_step x0 t0 n (\<beta>, k_avg, \<eta>, \<alpha>, \<gamma>I, \<mu>I, \<nu>, \<gamma>H, \<mu>H, 0, \<sigma>, tc)
       \<and> (\<forall>m\<le>n. \<forall>sol xt S_tc CH_tc.
            iterations SEAIHRD_markov_step x0 m (\<beta>, k_avg, \<eta>, \<alpha>, \<gamma>I, \<mu>I, \<nu>, \<gamma>H, \<mu>H, \<kappa>0, \<sigma>, tc)
              = Inr (sol, xt, S_tc, CH_tc) \<longrightarrow> S_tc = 0 \<and> CH_tc = 0)
       \<and> (\<forall>m\<le>n. \<forall>sol xt S_tc CH_tc.
            iterations SEAIHRD_markov_step x0 m (\<beta>, k_avg, \<eta>, \<alpha>, \<gamma>I, \<mu>I, \<nu>, \<gamma>H, \<mu>H, 0, \<sigma>, tc)
              = Inr (sol, xt, S_tc, CH_tc) \<longrightarrow> S_tc = 0 \<and> CH_tc = 0)"
proof -
  have "solve SEAIHRD_markov_step x0 t0 n (\<beta>, k_avg, \<eta>, \<alpha>, \<gamma>I, \<mu>I, \<nu>, \<gamma>H, \<mu>H, \<kappa>0, \<sigma>, tc)
         = solve SEAIHRD_markov_step x0 t0 n (\<beta>, k_avg, \<eta>, \<alpha>, \<gamma>I, \<mu>I, \<nu>, \<gamma>H, \<mu>H, 0, \<sigma>, tc)"
    using iterations_never [OF assms, of n x0 \<beta> k_avg \<eta> \<alpha> \<gamma>I \<mu>I \<nu> \<gamma>H \<mu>H \<kappa>0 \<sigma>]
    by (simp add: solve_def)
  moreover have "\<forall>m\<le>n. \<forall>sol xt S_tc CH_tc.
            iterations SEAIHRD_markov_step x0 m (\<beta>, k_avg, \<eta>, \<alpha>, \<gamma>I, \<mu>I, \<nu>, \<gamma>H, \<mu>H, k0, \<sigma>, tc)
              = Inr (sol, xt, S_tc, CH_tc) \<longrightarrow> S_tc = 0 \<and> CH_tc = 0" for k0
    using iterations_never [OF assms, of _ x0 \<beta> k_avg \<eta> \<alpha> \<gamma>I \<mu>I \<nu> \<gamma>H \<mu>H k0 \<sigma>] by blast
  ultimately show ?thesis by blast
qed

theorem no_intervention_witness:
  "solve SEAIHRD_markov_step (1/2, 0, 0, 0, 1/2, 0, 0, 0) 0 2
     (0, 0, 0, 0, 1/2, 1/4, 0, 0, 0, 1/2, 1, Day 2)
   = solve SEAIHRD_markov_step (1/2, 0, 0, 0, 1/2, 0, 0, 0) 0 2
     (0, 0, 0, 0, 1/2, 1/4, 0, 0, 0, 0, 1, Day 2)
   \<and> iterations SEAIHRD_markov_step (1/2, 0, 0, 0, 1/2, 0, 0, 0) 2
     (0, 0, 0, 0, 1/2, 1/4, 0, 0, 0, 1/2, 1, Day 2)
     = Inr ([(1/2, 0, 0, 0, 1/2, 0, 0, 0), (1/2, 0, 0, 0, 1/8, 0, 1/4, 1/8)],
            (1/2, 0, 0, 0, 1/32, 0, 5/16, 5/32), 0, 0)"
proof -
  have "Day 2 = Never \<or> (\<exists>c. Day 2 = Day c \<and> int 2 \<le> c)" by simp
  from no_intervention [OF this, of "(1/2, 0, 0, 0, 1/2, 0, 0, 0)" 0 0 0 0 0 "1/2" "1/4" 0 0 0 "1/2" 1]
  show ?thesis by (simp add: run_simps)
qed

text \<open>
  Setting \<open>\<kappa>0 = 0\<close> with \<open>tc\<close> inside the horizon is a different run: the capture
  still takes place and the frozen scalars take the values of day \<open>tc\<close>.
\<close>

lemma zero_strength_still_freezes:
  "iterations SEAIHRD_markov_step (1, 0, 0, 0, 0, 0, 0, 0) 1
     (0, 0, 0, 0, 0, 0, 0, 0, 0, 0, 1, Day 0)
   = Inr ([(1, 0, 0, 0, 0, 0, 0, 0)], (1, 0, 0, 0, 0, 0, 0, 0), 1, 1)"
  by (simp add: run_simps)

section \<open>Aggregation, error and calibration\<close>

lemma length_TotalCases: "length (TotalCases sol) = length sol"
  by (simp add: TotalCases_def add_columns_def Infected_def Hospitalized_def Recovered_def
      Deceased_def)

lemma nth_TotalCases:
  "d < length sol \<Longrightarrow>
     TotalCases sol ! d = I_of (sol ! d) + H_of (sol ! d) + R_of (sol ! d) + D_of (sol ! d)"
  by (simp add: TotalCases_def add_columns_def Infected_def Hospitalized_def Recovered_def
      Deceased_def)

lemma foldl_add_rows:
  fixes r :: "real list"
  assumes "\<forall>r' \<in> set rs. length r' = length r"
  shows "length (foldl (\<lambda>a b. map2 (+) a b) r rs) = length r"
    and "d < length r \<Longrightarrow> foldl (\<lambda>a b. map2 (+) a b) r rs ! d = r ! d + (\<Sum>r'\<leftarrow>rs. r' ! d)"
  using assms
proof (induction rs arbitrary: r)
  case Nil
  { case 1 show ?case by simp }
  { case 2 show ?case by simp }
next
  case (Cons a rs)
  { case 1
    then have "\<forall>r' \<in> set rs. length r' = length (map2 (+) r a)" by simp
    from Cons.IH(1) [OF this] 1 show ?case by simp }
  { case 2
    then have *: "\<forall>r' \<in> set rs. length r' = length (map2 (+) r a)" and "d < length (map2 (+) r a)"
      by simp_all
    from Cons.IH(2) [OF this(2) *] 2 show ?case by simp }
qed

text \<open>
  Claim C8. For every list of per-region trajectories of one scenario, all of the same
  horizon \<open>n\<close>, and every day \<open>d < n\<close>, the national total-cases array returned by
  \<open>CasesAggregation\<close> has \<open>n\<close> entries and its entry \<open>d\<close> is the sum over all regions
  of that region's \<open>I + H + R + D\<close> at day \<open>d\<close>. (There is a day only when there is a
  region: the list is not empty.)
\<close>

theorem aggregation_additive:
  assumes "sol_per_state \<noteq> []"
    and "\<forall>sol \<in> set sol_per_state. length sol = n"
    and "d < n"
  shows "\<exists>v. CasesAggregation sol_per_state TotalCases = Inr (Vec v) \<and> length v = n
           \<and> v ! d = (\<Sum>sol\<leftarrow>sol_per_state.
                        I_of (sol ! d) + H_of (sol ! d) + R_of (sol ! d) + D_of (sol ! d))"
proof -
  from assms(1) obtain s ss where sp: "sol_per_state = s # ss" by (cases sol_per_state) auto
  let ?r = "TotalCases s" and ?rs = "map TotalCases ss"
  have len: "\<forall>r' \<in> set ?rs. length r' = length ?r"
    using assms(2) by (simp add: sp length_TotalCases)
  have n: "length ?r = n" using assms(2) by (simp add: sp length_TotalCases)
  have agg: "CasesAggregation sol_per_state TotalCases = Inr (Vec (foldl (\<lambda>a b. map2 (+) a b) ?r ?rs))"
    using len by (simp add: CasesAggregation_def sp)
  have "(\<Sum>r'\<leftarrow>?rs. r' ! d) = (\<Sum>sol\<leftarrow>ss. I_of (sol ! d) + H_of (sol ! d) + R_of (sol ! d) + D_of (sol ! d))"
    using assms(2,3) by (auto simp: sp comp_def nth_TotalCases intro!: arg_cong [where f = sum_list])
  then have "foldl (\<lambda>a b. map2 (+) a b) ?r ?rs ! d
      = (\<Sum>sol\<leftarrow>sol_per_state. I_of (sol ! d) + H_of (sol ! d) + R_of (sol ! d) + D_of (sol ! d))"
    using foldl_add_rows(2) [OF len, of d] n assms(2,3) by (simp add: sp nth_TotalCases)
  with agg foldl_add_rows(1) [OF len] n show ?thesis by simp
qed

theorem aggregation_additive_witness:
  "CasesAggregation [[(0, 0, 0, 0, 1, 2, 3, 4)], [(0, 0, 0, 0, 10, 20, 30, 40)]] TotalCases
     = Inr (Vec [110])
   \<and> (110::real) = (1 + 2 + 3 + 4) + (10 + 20 + 30 + 40)"
  using aggregation_additive [of "[[(0, 0, 0, 0, 1, 2, 3, 4)], [(0, 0, 0, 0, 10, 20, 30, 40)]]" 1 0]
  by (simp add: CasesAggregation_def TotalCases_def add_columns_def Infected_def Hospitalized_def
      Recovered_def Deceased_def)

lemma sum_list_abs_diff:
  assumes "length x \<le> length y"
  shows "sum_list (map abs (map2 (-) x (take (length x) y))) = (\<Sum>i<length x. \<bar>x ! i - y ! i\<bar>)"
proof -
  have "sum_list (map abs (map2 (-) x (take (length x) y)))
      = (\<Sum>i = 0..<length x. map abs (map2 (-) x (take (length x) y)) ! i)"
    using assms by (simp add: sum_list_sum_nth)
  also have "\<dots> = (\<Sum>i = 0..<length x. \<bar>x ! i - y ! i\<bar>)"
    using assms by (intro sum.cong) simp_all
  finally show ?thesis by (simp add: lessThan_atLeast0)
qed

text \<open>
  Claim C7, amended. For every non-empty observed sequence \<open>x\<close> and every projection
  \<open>y\<close> at least as long as \<open>x\<close>, \<open>MAE\<close> returns the mean of the absolute differences
  over the first \<open>min(len(x), len(y)) = len(x)\<close> positions. Only the projection is cut,
  to the length of the observed sequence.
\<close>

theorem MAE_front_window:
  assumes "x \<noteq> []" "length x \<le> length y"
  shows "MAE x y = Inr ((\<Sum>i<min (length x) (length y). \<bar>x ! i - y ! i\<bar>)
                        / real (min (length x) (length y)))"
proof -
  have "np_subtract x (take (length x) y) = Inr (map2 (-) x (take (length x) y))"
    using assms by (simp add: np_subtract_def)
  moreover have "y \<noteq> []" using assms by auto
  then have "map abs (map2 (-) x (take (length x) y)) \<noteq> []" using assms by simp
  moreover have "length (map abs (map2 (-) x (take (length x) y))) = length x" using assms by simp
  ultimately have m: "MAE x y = Inr (sum_list (map abs (map2 (-) x (take (length x) y))) / real (length x))"
    by (simp add: MAE_def np_mean_def)
  have mn: "min (length x) (length y) = length x" using assms(2) by simp
  show ?thesis unfolding mn m sum_list_abs_diff [OF assms(2)] ..
qed

theorem MAE_front_window_witness:
  "MAE [1, 2] [2, 4, 7] = Inr ((\<bar>1 - 2\<bar> + \<bar>2 - 4\<bar>) / 2)"
  using MAE_front_window [of "[1, 2]" "[2, 4, 7]"]
  by (simp add: MAE_def np_subtract_def np_mean_def)

text \<open>
  A projection of two values against three observed values cannot be subtracted; a
  projection of a single value is broadcast along the whole observed sequence.
\<close>

theorem MAE_front_window_counterexample:
  "MAE [1, 2, 3] [1, 2] = Inl ValueError"
  by (simp add: MAE_def np_subtract_def)

lemma MAE_broadcast: "MAE [1, 2, 3] [1] = Inr 1"
  by (simp add: MAE_def np_subtract_def np_mean_def)

lemma collect_map:
  assumes "collect (map g xs) = Inr ys"
  shows "length ys = length xs \<and> (\<forall>j<length xs. g (xs ! j) = Inr (ys ! j))"
  using assms
proof (induction xs arbitrary: ys)
  case Nil
  then show ?case by simp
next
  case (Cons x xs)
  from Cons.prems obtain v vs where v: "g x = Inr v" and vs: "collect (map g xs) = Inr vs"
    and ys: "ys = v # vs"
    by (cases "g x") (auto split: sum.splits)
  from Cons.IH [OF vs] have "length vs = length xs" "\<forall>j<length xs. g (xs ! j) = Inr (vs ! j)"
    by simp_all
  then show ?case using v ys by (auto simp: nth_Cons split: nat.splits)
qed

lemma foldl_min:
  fixes x :: real
  shows "foldl (\<lambda>m y. if y < m then y else m) x xs \<in> set (x # xs)
         \<and> (\<forall>y \<in> set (x # xs). foldl (\<lambda>m y. if y < m then y else m) x xs \<le> y)"
proof (induction xs arbitrary: x)
  case Nil
  then show ?case by simp
next
  case (Cons a xs)
  show ?case using Cons.IH [of "if a < x then a else x"] by (auto split: if_splits)
qed

lemma list_index_first:
  assumes "v \<in> set xs"
  shows "\<exists>i<length xs. list_index xs v = Inr i \<and> xs ! i = v \<and> (\<forall>j<i. xs ! j \<noteq> v)"
  using assms
proof (induction xs)
  case Nil
  then show ?case by simp
next
  case (Cons x xs)
  show ?case
  proof (cases "x = v")
    case True
    then show ?thesis by simp
  next
    case False
    with Cons.prems have "v \<in> set xs" by simp
    from Cons.IH [OF this] obtain i where i: "i < length xs" "list_index xs v = Inr i"
      "xs ! i = v" "\<forall>j<i. xs ! j \<noteq> v" by blast
    have "\<forall>j<Suc i. (x # xs) ! j \<noteq> v" using i(4) False by (auto simp: nth_Cons split: nat.splits)
    with i False show ?thesis by (intro exI [of _ "Suc i"]) simp
  qed
qed

text \<open>
  The cross validation yields a list of errors whenever the parameters are valid, there
  is a region, the initial conditions of every region are defined and non-negative for
  every candidate, and the observed series is not empty and no longer than the horizon.
\<close>

lemma initial_conditions_sum:
  assumes "initial_conditions r reg = Inr x0"
  shows "compartment_sum x0 = 1 \<and> CH_of x0 = 0"
proof -
  obtain N confirmed deaths recovered where reg: "reg = (N, confirmed, deaths, recovered)"
    by (cases reg) auto
  from assms show ?thesis unfolding reg
    by (auto simp: Let_def split: if_splits)
qed

lemma collect_defined:
  assumes "\<forall>x \<in> set xs. \<exists>v. g x = Inr v"
  shows "\<exists>ys. collect (map g xs) = Inr ys"
  using assms
proof (induction xs)
  case Nil
  then show ?case by simp
next
  case (Cons x xs)
  then obtain v ys where "g x = Inr v" "collect (map g xs) = Inr ys" by auto
  then show ?case by simp
qed

lemma projection_defined:
  assumes v: "valid_params (\<beta>, k_avg, \<eta>, \<alpha>, \<gamma>I, \<mu>I, \<nu>, \<gamma>H, \<mu>H, \<kappa>0, \<sigma>, tc)"
    and ic: "initial_conditions r reg = Inr x0" and nn: "nonneg x0"
  shows "\<exists>proj. projection_state_i (\<beta>, k_avg, \<eta>, \<alpha>, \<gamma>I, \<mu>I, \<nu>, \<gamma>H, \<mu>H, \<sigma>, tc, n_days) r \<kappa>0 reg = Inr proj
           \<and> length proj = n_days"
proof -
  obtain N confirmed deaths recovered where reg: "reg = (N, confirmed, deaths, recovered)"
    by (cases reg) auto
  from initial_conditions_sum [OF ic] have "compartment_sum x0 \<le> 1" by simp
  from iterations_valid [OF v nn this, of n_days] obtain sol xt S_tc CH_tc
    where "iterations SEAIHRD_markov_step x0 n_days (\<beta>, k_avg, \<eta>, \<alpha>, \<gamma>I, \<mu>I, \<nu>, \<gamma>H, \<mu>H, \<kappa>0, \<sigma>, tc)
             = Inr (sol, xt, S_tc, CH_tc)" "length sol = n_days"
    by blast
  then have "solve SEAIHRD_markov_step x0 0 n_days (\<beta>, k_avg, \<eta>, \<alpha>, \<gamma>I, \<mu>I, \<nu>, \<gamma>H, \<mu>H, \<kappa>0, \<sigma>, tc) = Inr sol"
    "length (map (scale_state N) sol) = n_days"
    by (simp_all add: solve_def)
  then show ?thesis using ic unfolding reg by simp
qed

lemma MAE_defined:
  assumes "x \<noteq> []" "length x \<le> length y"
  shows "\<exists>m. MAE x y = Inr m"
proof -
  have "y \<noteq> []" using assms by auto
  then show ?thesis using assms by (simp add: MAE_def np_subtract_def np_mean_def)
qed

lemma cross_validation_defined:
  assumes v: "valid_params (\<beta>, k_avg, \<eta>, \<alpha>, \<gamma>I, \<mu>I, \<nu>, \<gamma>H, \<mu>H, 0, \<sigma>, tc)"
    and regs: "regions \<noteq> []"
    and ic: "\<forall>r \<in> set r_range. \<forall>reg \<in> set regions. \<exists>x0. initial_conditions r reg = Inr x0 \<and> nonneg x0"
    and data: "data \<noteq> []" "length data \<le> n_days"
  shows "\<exists>mae_range. cross_validation (\<beta>, k_avg, \<eta>, \<alpha>, \<gamma>I, \<mu>I, \<nu>, \<gamma>H, \<mu>H, \<sigma>, tc, n_days) regions data r_range
           = Inr mae_range"
proof -
  let ?g = "(\<beta>, k_avg, \<eta>, \<alpha>, \<gamma>I, \<mu>I, \<nu>, \<gamma>H, \<mu>H, \<sigma>, tc, n_days)"
  have "\<exists>m. candidate_mae ?g regions data r = Inr m" if r: "r \<in> set r_range" for r
  proof -
    have "\<forall>reg \<in> set regions. \<exists>proj. projection_state_i ?g r 0 reg = Inr proj"
      using ic r projection_defined [OF v] by blast
    from collect_defined [OF this] obtain projs
      where c: "collect (map (projection_state_i ?g r 0) regions) = Inr projs" by blast
    from collect_map [OF c]
    have len: "length projs = length regions"
      and each: "\<forall>j<length regions. projection_state_i ?g r 0 (regions ! j) = Inr (projs ! j)"
      by simp_all
    have n: "\<forall>proj \<in> set projs. length proj = n_days"
    proof
      fix proj assume "proj \<in> set projs"
      then obtain j where j: "j < length projs" "proj = projs ! j" by (auto simp: in_set_conv_nth)
      then have "regions ! j \<in> set regions" using len by simp
      with ic r obtain x0 where "initial_conditions r (regions ! j) = Inr x0" "nonneg x0" by blast
      from projection_defined [OF v this, of n_days] each j len show "length proj = n_days" by auto
    qed
    from regs len obtain s ss where sp: "projs = s # ss" by (cases projs) auto
    have rows: "\<forall>r' \<in> set (map TotalCases ss). length r' = length (TotalCases s)"
      using n by (simp add: sp length_TotalCases)
    have "solve_national ?g regions r 0 = Inr (Vec (foldl (\<lambda>a b. map2 (+) a b) (TotalCases s) (map TotalCases ss)))"
      using c rows by (simp add: solve_national_def CasesAggregation_def sp)
    moreover have "length (foldl (\<lambda>a b. map2 (+) a b) (TotalCases s) (map TotalCases ss)) = n_days"
      using foldl_add_rows(1) [OF rows] n by (simp add: sp length_TotalCases)
    ultimately show ?thesis
      using MAE_defined [OF data(1), of "foldl (\<lambda>a b. map2 (+) a b) (TotalCases s) (map TotalCases ss)"] data(2)
      by (simp add: candidate_mae_def)
  qed
  then show ?thesis unfolding cross_validation_def by (intro collect_defined) blast
qed

text \<open>
  Once \<open>cross_validation\<close> has returned the list of errors, \<open>r_min\<close> picks a candidate
  of minimal error, the first of them.
\<close>

lemma calibrate_argmin:
  assumes cv: "cross_validation g regions data r_range = Inr mae_range"
    and ne: "r_range \<noteq> []"
  shows "\<exists>i<length r_range.
           calibrate g regions data r_range = Inr (r_range ! i)
           \<and> (\<forall>j<length r_range. candidate_mae g regions data (r_range ! j) = Inr (mae_range ! j))
           \<and> (\<forall>j<length r_range. mae_range ! i \<le> mae_range ! j)
           \<and> (\<forall>j<i. mae_range ! i < mae_range ! j)"
proof -
  from collect_map [OF cv [unfolded cross_validation_def]]
  have len: "length mae_range = length r_range"
    and each: "\<forall>j<length r_range. candidate_mae g regions data (r_range ! j) = Inr (mae_range ! j)"
    by simp_all
  from ne len obtain a as where ma: "mae_range = a # as" by (cases mae_range) auto
  define m where "m = foldl (\<lambda>m y. if y < m then y else m) a as"
  have pm: "py_min mae_range = Inr m" by (simp add: ma m_def)
  from foldl_min [of a as] have min_in: "m \<in> set mae_range"
    and min_le: "\<forall>y \<in> set mae_range. m \<le> y"
    by (simp_all add: ma m_def)
  from list_index_first [OF min_in] obtain i where i: "i < length mae_range"
    "list_index mae_range m = Inr i" "mae_range ! i = m" "\<forall>j<i. mae_range ! j \<noteq> m"
    by blast
  have cal: "calibrate g regions data r_range = Inr (r_range ! i)"
    using cv pm i(1,2) len by (simp add: calibrate_def r_min_def getitem_def)
  have le: "\<forall>j<length r_range. mae_range ! i \<le> mae_range ! j"
    using min_le i(3) len by simp
  have lt: "\<forall>j<i. mae_range ! i < mae_range ! j"
  proof (intro allI impI)
    fix j assume j: "j < i"
    then have "mae_range ! j \<noteq> m" using i(4) by simp
    moreover have "m \<le> mae_range ! j" using min_le j i(1) by simp
    ultimately show "mae_range ! i < mae_range ! j" using i(3) by simp
  qed
  from i(1) len cal each le lt show ?thesis by auto
qed

text \<open>
  Claim C6, amended. For every non-empty observed series and every non-empty ordered
  list of candidates such that the no-containment national projection of every candidate
  is a series of numbers at least as long as the observed series, the calibration
  returns a candidate \<open>r_range ! i\<close> whose mean absolute error against its projection is
  minimal, and every candidate before it has a strictly larger error: among several
  minimal candidates it is the first. The result is a function of the grid and the
  series, so the same inputs give the same \<open>r\<close>.
\<close>

theorem calibrate_first_minimum:
  assumes data: "data \<noteq> []"
    and ne: "r_range \<noteq> []"
    and proj: "\<forall>r \<in> set r_range. \<exists>y. solve_national g regions r 0 = Inr (Vec y) \<and> length data \<le> length y"
  shows "\<exists>mae_range i.
           cross_validation g regions data r_range = Inr mae_range
           \<and> i < length r_range
           \<and> calibrate g regions data r_range = Inr (r_range ! i)
           \<and> (\<forall>j<length r_range. candidate_mae g regions data (r_range ! j) = Inr (mae_range ! j))
           \<and> (\<forall>j<length r_range. mae_range ! i \<le> mae_range ! j)
           \<and> (\<forall>j<i. mae_range ! i < mae_range ! j)"
proof -
  have "\<exists>m. candidate_mae g regions data r = Inr m" if "r \<in> set r_range" for r
  proof -
    from proj that obtain y where "solve_national g regions r 0 = Inr (Vec y)" "length data \<le> length y"
      by blast
    with MAE_defined [OF data, of y] show ?thesis by (simp add: candidate_mae_def)
  qed
  then have "\<exists>mae_range. cross_validation g regions data r_range = Inr mae_range"
    unfolding cross_validation_def by (intro collect_defined) blast
  then obtain mae_range where cv: "cross_validation g regions data r_range = Inr mae_range" by blast
  from calibrate_argmin [OF cv ne] cv show ?thesis by blast
qed

text \<open>
  One region of ten people with one confirmed case, two days: the national total is
  \<open>1\<close> and then \<open>1 + r / 2\<close>.
\<close>

lemma national_run:
  "solve_national (0, 0, 0, 1, 0, 0, 0, 0, 0, 1, Never, 2) [(10, 1, 0, 0)] r 0
     = Inr (Vec [1, 1 + r / 2])"
  by (simp add: solve_national_def CasesAggregation_def TotalCases_def add_columns_def
      Infected_def Hospitalized_def Recovered_def Deceased_def Let_def run_simps algebra_simps)

lemma calibration_run:
  "cross_validation (0, 0, 0, 1, 0, 0, 0, 0, 0, 1, Never, 2) [(10, 1, 0, 0)] [1, 2] [0, 2, 4, 2]
     = Inr [1/2, 0, 1/2, 0]"
  by (simp add: cross_validation_def candidate_mae_def solve_national_def CasesAggregation_def
      TotalCases_def add_columns_def Infected_def Hospitalized_def Recovered_def Deceased_def
      MAE_def np_subtract_def np_mean_def Let_def run_simps)

theorem calibrate_first_minimum_witness:
  "cross_validation (0, 0, 0, 1, 0, 0, 0, 0, 0, 1, Never, 2) [(10, 1, 0, 0)] [1, 2] [0, 2, 4, 2]
     = Inr [1/2, 0, 1/2, 0]
   \<and> calibrate (0, 0, 0, 1, 0, 0, 0, 0, 0, 1, Never, 2) [(10, 1, 0, 0)] [1, 2] [0, 2, 4, 2] = Inr 2"
proof -
  have "\<exists>mae_range i.
           cross_validation (0, 0, 0, 1, 0, 0, 0, 0, 0, 1, Never, 2) [(10, 1, 0, 0)] [1, 2] [0, 2, 4, 2]
             = Inr mae_range
           \<and> i < length [0, 2, 4, 2 :: real]
           \<and> calibrate (0, 0, 0, 1, 0, 0, 0, 0, 0, 1, Never, 2) [(10, 1, 0, 0)] [1, 2] [0, 2, 4, 2]
               = Inr ([0, 2, 4, 2] ! i)
           \<and> (\<forall>j<length [0, 2, 4, 2 :: real].
                candidate_mae (0, 0, 0, 1, 0, 0, 0, 0, 0, 1, Never, 2) [(10, 1, 0, 0)] [1, 2] ([0, 2, 4, 2] ! j)
                  = Inr (mae_range ! j))
           \<and> (\<forall>j<length [0, 2, 4, 2 :: real]. mae_range ! i \<le> mae_range ! j)
           \<and> (\<forall>j<i. mae_range ! i < mae_range ! j)"
    by (rule calibrate_first_minimum) (simp_all add: national_run)
  with calibration_run show ?thesis
    by (simp add: calibrate_def r_min_def getitem_def)
qed

text \<open>
  An observed series of three days against that projection of two days: the
  subtraction in \<open>MAE\<close> raises and the calibration returns no candidate.
\<close>

theorem calibrate_first_minimum_counterexample:
  "calibrate (0, 0, 0, 1, 0, 0, 0, 0, 0, 1, Never, 2) [(10, 1, 0, 0)] [1, 2, 3] [0, 2]
     = Inl ValueError"
  by (simp add: calibrate_def cross_validation_def candidate_mae_def national_run MAE_def
      np_subtract_def)

end
